theory Spec2Isabelle
  imports Main
begin

section \<open>Python values used by the bot\<close>

text \<open>
  A Python \<open>str\<close> is held as a \<open>string\<close>: the bytes of its UTF-8 encoding, so the
  Cyrillic literals of the source are written byte by byte. The characters the code
  searches for (the braces, the back quotes) are ASCII, and an ASCII byte never occurs
  inside the encoding of another character, so searching and slicing by bytes cuts the
  text where searching and slicing by characters does.
\<close>

text \<open>\<open>str(n)\<close> for an \<open>int\<close>, as an f-string renders it.\<close>

fun digits :: "nat \<Rightarrow> string" where
  "digits n =
     (if n < 10 then [''0123456789'' ! n]
      else digits (n div 10) @ [''0123456789'' ! (n mod 10)])"

declare digits.simps [simp del]

definition str_int :: "int \<Rightarrow> string" where
  "str_int i = (if i < 0 then CHR ''-'' # digits (nat (- i)) else digits (nat i))"

text \<open>\<open>str(x)\<close> for a value that is an \<open>int\<close> or \<open>None\<close>.\<close>

definition str_opt_int :: "int option \<Rightarrow> string" where
  "str_opt_int x = (case x of None \<Rightarrow> ''None'' | Some i \<Rightarrow> str_int i)"

text \<open>
  A JSON value as \<open>json.loads\<close> returns it. A number is kept as its literal: nothing
  in the bot computes with one.
\<close>

datatype json =
    JNull
  | JBool bool
  | JNum string
  | JStr string
  | JArr "json list"
  | JObj "(string \<times> json) list"

text \<open>A Python \<open>dict\<close> with \<open>str\<close> keys; \<open>d.get(k)\<close> is \<open>map_of d k\<close>.\<close>

type_synonym pydict = "(string \<times> json) list"

section \<open>The ledger: database.py\<close>

text \<open>
  A row of the table \<open>messages\<close>. The columns \<open>id\<close>, \<open>created_at\<close> and
  \<open>updated_at\<close> are filled by the database and read by no operation; they are left out.
  \<open>date\<close> is held as the text \<open>str()\<close> gives for the \<open>datetime\<close>: it is stored and
  printed, never computed with. The table is the list of its rows, in insertion order.
  Each operation runs in a session of its own and catches every exception; the one that
  the code can meet on a store that works, \<open>MultipleResultsFound\<close>, is a branch
  below, while a store that fails (a commit that raises) is not part of the model.
\<close>

record message_row =
  message_id :: int
  chat_id :: int
  user_id :: "int option"
  row_text :: "string option"
  date :: string
  is_processed :: bool
  wiki_page :: "string option"
  analysis :: "string option"

text \<open>
  \<open>Result.scalar_one_or_none()\<close>: no row gives \<open>None\<close>, one row gives the row, several
  rows raise \<open>MultipleResultsFound\<close>.
\<close>

datatype db_error = MultipleResultsFound

fun scalar_one_or_none :: "'a list \<Rightarrow> db_error + 'a option" where
  "scalar_one_or_none [] = Inr None"
| "scalar_one_or_none [r] = Inr (Some r)"
| "scalar_one_or_none (r # r' # rs) = Inl MultipleResultsFound"

text \<open>\<open>select(Message).filter_by(message_id=message_id)\<close>\<close>

definition filter_by_message_id :: "int \<Rightarrow> message_row list \<Rightarrow> message_row list" where
  "filter_by_message_id mid rows = filter (\<lambda>r. message_id r = mid) rows"

text \<open>
  \<open>Database.add_message\<close>. The first argument stands for \<open>json.dumps\<close>. The result is
  the value returned (\<open>None\<close> after an exception) and the table afterwards.
\<close>

definition add_message ::
  "(pydict \<Rightarrow> string) \<Rightarrow> message_row list \<Rightarrow> int \<Rightarrow> int \<Rightarrow> int option \<Rightarrow> string option \<Rightarrow> string
     \<Rightarrow> pydict option \<Rightarrow> message_row option \<times> message_row list" where
  "add_message dumps rows mid chat uid txt dt an =
     (case scalar_one_or_none (filter_by_message_id mid rows) of
        Inl e \<Rightarrow> (None, rows)
      | Inr (Some existing_message) \<Rightarrow> (Some existing_message, rows)
      | Inr None \<Rightarrow>
          (let message = \<lparr> message_id = mid, chat_id = chat, user_id = uid, row_text = txt,
                           date = dt, is_processed = False, wiki_page = None,
                           analysis = (case an of None \<Rightarrow> None
                                       | Some a \<Rightarrow> if a = [] then None else Some (dumps a)) \<rparr>
           in (Some message, rows @ [message])))"

text \<open>\<open>Database.mark_message_as_processed\<close>\<close>

definition mark_message_as_processed ::
  "message_row list \<Rightarrow> int \<Rightarrow> string \<Rightarrow> bool \<times> message_row list" where
  "mark_message_as_processed rows mid page =
     (case scalar_one_or_none (filter_by_message_id mid rows) of
        Inl e \<Rightarrow> (False, rows)
      | Inr None \<Rightarrow> (False, rows)
      | Inr (Some message) \<Rightarrow>
          (True, map (\<lambda>r. if message_id r = mid
                           then r\<lparr>is_processed := True, wiki_page := Some page\<rparr> else r) rows))"

text \<open>\<open>Database.get_processed_messages\<close> and \<open>Database.get_unprocessed_messages\<close>\<close>

definition get_processed_messages :: "message_row list \<Rightarrow> int list" where
  "get_processed_messages rows = map message_id (filter is_processed rows)"

definition get_unprocessed_messages :: "message_row list \<Rightarrow> message_row list" where
  "get_unprocessed_messages rows = filter (\<lambda>r. \<not> is_processed r) rows"

text \<open>
  The invariant of the table: at most one row for a \<open>message_id\<close>, and a row has a
  \<open>wiki_page\<close> exactly when it is processed.
\<close>

definition ledger_inv :: "message_row list \<Rightarrow> bool" where
  "ledger_inv rows \<longleftrightarrow>
     distinct (map message_id rows) \<and>
     list_all (\<lambda>r. (wiki_page r \<noteq> None) = is_processed r) rows"

section \<open>The world outside the bot\<close>

text \<open>
  A message as the chat library hands it over, with the fields the bot reads:
  \<open>id\<close>, \<open>chat_id\<close>, \<open>sender_id\<close>, \<open>text\<close> (\<open>None\<close> for a message that carries
  no text at all), \<open>date\<close> (as \<open>str()\<close> prints it) and \<open>out\<close>.
\<close>

record source_message =
  m_id :: int
  m_chat_id :: int
  m_sender_id :: "int option"
  m_text :: "string option"
  m_date :: string
  m_out :: bool

text \<open>
  What \<open>session.post\<close> gives: it raises, or there is a response with a status and a
  body. The body is held as \<open>response.json()\<close> reads it, \<open>None\<close> where that raises.
\<close>

datatype http_reply = PostRaises | Reply nat "json option"

text \<open>
  The wiki client and the wiki behind it: whether \<open>self.site\<close> is set, the text of
  every existing page, and the calls of \<open>page.save\<close> that went through, in order.
\<close>

record wiki =
  connected :: bool
  pages :: "string \<rightharpoonup> string"
  saved :: "(string \<times> string) list"

text \<open>
  The libraries and services the bot calls, as parameters: the two functions of the
  \<open>json\<close> module; the analysis service (its reply to the \<open>n\<close>-th request, given the
  prompt); the wiki (the titles for which \<open>page.save\<close> raises; looking a page up and
  reading its text are taken to succeed); the chat platform (\<open>get_messages\<close> with
  \<open>limit\<close> and \<open>offset_id\<close>, \<open>None\<close> where it raises). \<open>edit_page\<close> and
  \<open>mark_message_as_processed\<close> are written for a \<open>str\<close> title; when the analysis
  holds another JSON value under \<open>title\<close>, what they return and leave behind is
  decided inside the wiki library and the database driver, and the last two fields
  stand for that: \<open>edit_page_other\<close> for \<open>edit_page\<close> with such a title and the
  page of the message, \<open>mark_other\<close> for \<open>mark_message_as_processed\<close> with such a
  title.
\<close>

record env =
  json_loads :: "string \<Rightarrow> pydict option"
  json_dumps :: "pydict \<Rightarrow> string"
  ollama_post :: "nat \<Rightarrow> string \<Rightarrow> http_reply"
  save_raises :: "string \<Rightarrow> bool"
  get_messages :: "nat \<Rightarrow> int \<Rightarrow> source_message list option"
  edit_page_other :: "json \<Rightarrow> source_message \<Rightarrow> wiki \<Rightarrow> bool \<times> wiki"
  mark_other :: "message_row list \<Rightarrow> int \<Rightarrow> json \<Rightarrow> bool \<times> message_row list"

section \<open>The analysis gateway: ollama_client.py\<close>

text \<open>\<open>s.find(c)\<close> and \<open>s.rfind(c)\<close> for a single character: the index, or \<open>-1\<close>.\<close>

fun find_char :: "char \<Rightarrow> string \<Rightarrow> int" where
  "find_char c [] = - 1"
| "find_char c (x # xs) =
     (if x = c then 0 else (let i = find_char c xs in if i = - 1 then - 1 else i + 1))"

definition rfind_char :: "char \<Rightarrow> string \<Rightarrow> int" where
  "rfind_char c s =
     (let i = find_char c (rev s) in if i = - 1 then - 1 else int (length s) - 1 - i)"

text \<open>
  \<open>s[a:b]\<close> for bounds that are not negative, the only ones \<open>analyze_text\<close> slices
  with: it returns before the slice when \<open>find\<close> gave \<open>-1\<close>.
\<close>

definition slice :: "string \<Rightarrow> int \<Rightarrow> int \<Rightarrow> string" where
  "slice s a b = take (nat b - nat a) (drop (nat a) s)"

text \<open>
  \<open>s.strip()\<close>. \<open>is_space\<close> holds the ASCII white space of Python (tab to carriage
  return, the four separators \<open>0x1C\<close> to \<open>0x1F\<close>, the space). White space beyond
  ASCII is several bytes here and is not recognised; \<open>analyze_text\<close> strips only texts
  that begin with a brace and end with one, or are empty (\<open>clean_braced\<close> and
  \<open>clean_empty\<close> below), so no white space of any kind is at their ends.
\<close>

definition is_space :: "char \<Rightarrow> bool" where
  "is_space c \<longleftrightarrow>
     (let n = (of_char c :: nat) in (9 \<le> n \<and> n \<le> 13) \<or> (28 \<le> n \<and> n \<le> 32))"

definition strip :: "string \<Rightarrow> string" where
  "strip s = rev (dropWhile is_space (rev (dropWhile is_space s)))"

definition startswith :: "string \<Rightarrow> string \<Rightarrow> bool" where
  "startswith s p \<longleftrightarrow> take (length p) s = p"

definition endswith :: "string \<Rightarrow> string \<Rightarrow> bool" where
  "endswith s p \<longleftrightarrow> length p \<le> length s \<and> drop (length s - length p) s = p"

text \<open>The code fence: three back quotes, and three back quotes followed by \<open>json\<close>.\<close>

definition fence :: string where
  "fence = [CHR 0x60, CHR 0x60, CHR 0x60]"

definition fence_json :: string where
  "fence_json = fence @ ''json''"

text \<open>Lines 100 to 105 of \<open>analyze_text\<close>: the cleaning of the extracted text.\<close>

definition clean :: "string \<Rightarrow> string" where
  "clean json_text =
     (let t1 = strip json_text;
          t2 = (if startswith t1 fence_json then drop 7 t1 else t1);
          t3 = (if endswith t2 fence then take (length t2 - 3) t2 else t2)
      in strip t3)"

text \<open>
  Lines 85 to 117: from the text of the model's answer to the parsed result. The first
  argument stands for \<open>json.loads\<close>, \<open>None\<close> where it raises \<open>JSONDecodeError\<close>. It
  is called on a text that begins with a brace or is empty, so what it returns is a
  \<open>dict\<close>.
\<close>

definition extract_json :: "(string \<Rightarrow> pydict option) \<Rightarrow> string \<Rightarrow> pydict option" where
  "extract_json loads response_text =
     (let json_start = find_char (CHR ''{'') response_text;
          json_end = rfind_char (CHR ''}'') response_text + 1
      in if json_start = - 1 \<or> json_end = 0 then None
         else loads (clean (slice response_text json_start json_end)))"

text \<open>The two parts of the prompt, before and after the text.\<close>

definition prompt_head :: string where
  "prompt_head =
     [CHR 0xD0, CHR 0x9F, CHR 0xD1, CHR 0x80, CHR 0xD0, CHR 0xBE, CHR 0xD0, CHR 0xB0, CHR 0xD0, CHR 0xBD, CHR 0xD0, CHR 0xB0, CHR 0xD0, CHR 0xBB, CHR 0xD0, CHR 0xB8, CHR 0xD0, CHR 0xB7, CHR 0xD0, CHR 0xB8, CHR 0xD1, CHR 0x80, CHR 0xD1, CHR 0x83, CHR 0xD0, CHR 0xB9] @
     '' '' @
     [CHR 0xD1, CHR 0x81, CHR 0xD0, CHR 0xBB, CHR 0xD0, CHR 0xB5, CHR 0xD0, CHR 0xB4, CHR 0xD1, CHR 0x83, CHR 0xD1, CHR 0x8E, CHR 0xD1, CHR 0x89, CHR 0xD0, CHR 0xB8, CHR 0xD0, CHR 0xB9] @
     '' '' @
     [CHR 0xD1, CHR 0x82, CHR 0xD0, CHR 0xB5, CHR 0xD0, CHR 0xBA, CHR 0xD1, CHR 0x81, CHR 0xD1, CHR 0x82] @
     '' '' @ [CHR 0xD0, CHR 0xB8] @ '' '' @
     [CHR 0xD0, CHR 0xB2, CHR 0xD0, CHR 0xB5, CHR 0xD1, CHR 0x80, CHR 0xD0, CHR 0xBD, CHR 0xD0, CHR 0xB8] @
     '' '' @
     [CHR 0xD1, CHR 0x80, CHR 0xD0, CHR 0xB5, CHR 0xD0, CHR 0xB7, CHR 0xD1, CHR 0x83, CHR 0xD0, CHR 0xBB, CHR 0xD1, CHR 0x8C, CHR 0xD1, CHR 0x82, CHR 0xD0, CHR 0xB0, CHR 0xD1, CHR 0x82] @
     '' '' @ [CHR 0xD0, CHR 0xB2] @ '' '' @
     [CHR 0xD1, CHR 0x84, CHR 0xD0, CHR 0xBE, CHR 0xD1, CHR 0x80, CHR 0xD0, CHR 0xBC, CHR 0xD0, CHR 0xB0, CHR 0xD1, CHR 0x82, CHR 0xD0, CHR 0xB5] @
     '' JSON:\<newline>            {\<newline>                '' @ [CHR 0x22] @ ''title'' @ [CHR 0x22] @
     '': '' @
     [CHR 0x22, CHR 0xD0, CHR 0x9A, CHR 0xD1, CHR 0x80, CHR 0xD0, CHR 0xB0, CHR 0xD1, CHR 0x82, CHR 0xD0, CHR 0xBA, CHR 0xD0, CHR 0xB8, CHR 0xD0, CHR 0xB9] @
     '' '' @
     [CHR 0xD0, CHR 0xB7, CHR 0xD0, CHR 0xB0, CHR 0xD0, CHR 0xB3, CHR 0xD0, CHR 0xBE, CHR 0xD0, CHR 0xBB, CHR 0xD0, CHR 0xBE, CHR 0xD0, CHR 0xB2, CHR 0xD0, CHR 0xBE, CHR 0xD0, CHR 0xBA] @
     '' ('' @ [CHR 0xD0, CHR 0xB4, CHR 0xD0, CHR 0xBE] @ '' 5 '' @
     [CHR 0xD1, CHR 0x81, CHR 0xD0, CHR 0xBB, CHR 0xD0, CHR 0xBE, CHR 0xD0, CHR 0xB2] @ '')'' @
     [CHR 0x22] @ '',\<newline>                '' @ [CHR 0x22] @ ''summary'' @ [CHR 0x22] @ '': '' @
     [CHR 0x22, CHR 0xD0, CHR 0x9A, CHR 0xD1, CHR 0x80, CHR 0xD0, CHR 0xB0, CHR 0xD1, CHR 0x82, CHR 0xD0, CHR 0xBA, CHR 0xD0, CHR 0xBE, CHR 0xD0, CHR 0xB5] @
     '' '' @
     [CHR 0xD0, CHR 0xBE, CHR 0xD0, CHR 0xBF, CHR 0xD0, CHR 0xB8, CHR 0xD1, CHR 0x81, CHR 0xD0, CHR 0xB0, CHR 0xD0, CHR 0xBD, CHR 0xD0, CHR 0xB8, CHR 0xD0, CHR 0xB5] @
     '' (1-2 '' @
     [CHR 0xD0, CHR 0xBF, CHR 0xD1, CHR 0x80, CHR 0xD0, CHR 0xB5, CHR 0xD0, CHR 0xB4, CHR 0xD0, CHR 0xBB, CHR 0xD0, CHR 0xBE, CHR 0xD0, CHR 0xB6, CHR 0xD0, CHR 0xB5, CHR 0xD0, CHR 0xBD, CHR 0xD0, CHR 0xB8, CHR 0xD1, CHR 0x8F] @
     '')'' @ [CHR 0x22] @ '',\<newline>                '' @ [CHR 0x22] @ ''categories'' @ [CHR 0x22] @
     '': ['' @
     [CHR 0x22, CHR 0xD0, CHR 0xBA, CHR 0xD0, CHR 0xB0, CHR 0xD1, CHR 0x82, CHR 0xD0, CHR 0xB5, CHR 0xD0, CHR 0xB3, CHR 0xD0, CHR 0xBE, CHR 0xD1, CHR 0x80, CHR 0xD0, CHR 0xB8, CHR 0xD1, CHR 0x8F] @
     ''1'' @ [CHR 0x22] @ '', '' @
     [CHR 0x22, CHR 0xD0, CHR 0xBA, CHR 0xD0, CHR 0xB0, CHR 0xD1, CHR 0x82, CHR 0xD0, CHR 0xB5, CHR 0xD0, CHR 0xB3, CHR 0xD0, CHR 0xBE, CHR 0xD1, CHR 0x80, CHR 0xD0, CHR 0xB8, CHR 0xD1, CHR 0x8F] @
     ''2'' @ [CHR 0x22] @ ''],\<newline>                '' @ [CHR 0x22] @ ''tags'' @ [CHR 0x22] @
     '': ['' @ [CHR 0x22, CHR 0xD1, CHR 0x82, CHR 0xD0, CHR 0xB5, CHR 0xD0, CHR 0xB3] @ ''1'' @
     [CHR 0x22] @ '', '' @ [CHR 0x22, CHR 0xD1, CHR 0x82, CHR 0xD0, CHR 0xB5, CHR 0xD0, CHR 0xB3] @
     ''2'' @ [CHR 0x22] @ '']\<newline>            }\<newline>\<newline>            '' @
     [CHR 0xD0, CHR 0xA2, CHR 0xD0, CHR 0xB5, CHR 0xD0, CHR 0xBA, CHR 0xD1, CHR 0x81, CHR 0xD1, CHR 0x82] @
     '' '' @ [CHR 0xD0, CHR 0xB4, CHR 0xD0, CHR 0xBB, CHR 0xD1, CHR 0x8F] @ '' '' @
     [CHR 0xD0, CHR 0xB0, CHR 0xD0, CHR 0xBD, CHR 0xD0, CHR 0xB0, CHR 0xD0, CHR 0xBB, CHR 0xD0, CHR 0xB8, CHR 0xD0, CHR 0xB7, CHR 0xD0, CHR 0xB0] @
     '':\<newline>            ''"

definition prompt_tail :: string where
  "prompt_tail =
     ''\<newline>\<newline>            '' @
     [CHR 0xD0, CHR 0x92, CHR 0xD0, CHR 0xB5, CHR 0xD1, CHR 0x80, CHR 0xD0, CHR 0xBD, CHR 0xD0, CHR 0xB8] @
     '' '' @
     [CHR 0xD0, CHR 0xA2, CHR 0xD0, CHR 0x9E, CHR 0xD0, CHR 0x9B, CHR 0xD0, CHR 0xAC, CHR 0xD0, CHR 0x9A, CHR 0xD0, CHR 0x9E] @
     '' JSON, '' @ [CHR 0xD0, CHR 0xB1, CHR 0xD0, CHR 0xB5, CHR 0xD0, CHR 0xB7] @ '' '' @
     [CHR 0xD0, CHR 0xB4, CHR 0xD0, CHR 0xBE, CHR 0xD0, CHR 0xBF, CHR 0xD0, CHR 0xBE, CHR 0xD0, CHR 0xBB, CHR 0xD0, CHR 0xBD, CHR 0xD0, CHR 0xB8, CHR 0xD1, CHR 0x82, CHR 0xD0, CHR 0xB5, CHR 0xD0, CHR 0xBB, CHR 0xD1, CHR 0x8C, CHR 0xD0, CHR 0xBD, CHR 0xD0, CHR 0xBE, CHR 0xD0, CHR 0xB3, CHR 0xD0, CHR 0xBE] @
     '' '' @
     [CHR 0xD1, CHR 0x82, CHR 0xD0, CHR 0xB5, CHR 0xD0, CHR 0xBA, CHR 0xD1, CHR 0x81, CHR 0xD1, CHR 0x82, CHR 0xD0, CHR 0xB0] @
     ''.''"

text \<open>The prompt: the f-string of lines 52 to 63.\<close>

definition prompt_of :: "string \<Rightarrow> string" where
  "prompt_of txt = prompt_head @ txt @ prompt_tail"

text \<open>
  \<open>OllamaClient.analyze_text\<close>. The state of the client is the list of the prompts
  posted so far. \<open>len(text)\<close> raises for \<open>None\<close>, before the request; every
  exception ends in \<open>return None\<close>.
\<close>

definition analyze_text ::
  "env \<Rightarrow> string list \<Rightarrow> string option \<Rightarrow> pydict option \<times> string list" where
  "analyze_text e posts txt =
     (case txt of
        None \<Rightarrow> (None, posts)
      | Some t \<Rightarrow>
          (let prompt = prompt_of t; posts' = posts @ [prompt] in
           case ollama_post e (length posts) prompt of
             PostRaises \<Rightarrow> (None, posts')
           | Reply status body \<Rightarrow>
               if status \<noteq> 200 then (None, posts')
               else (case body of
                       Some (JObj result) \<Rightarrow>
                         (case (case map_of result ''response'' of None \<Rightarrow> JStr [] | Some v \<Rightarrow> v) of
                            JStr response_text \<Rightarrow> (extract_json (json_loads e) response_text, posts')
                          | _ \<Rightarrow> (None, posts'))
                     | _ \<Rightarrow> (None, posts'))))"

section \<open>The publication target: wiki_client.py\<close>

text \<open>The line feed.\<close>

definition nl :: string where
  "nl = [CHR 0x0A]"

text \<open>\<open>sep.join(xs)\<close>\<close>

fun join :: "string \<Rightarrow> string list \<Rightarrow> string" where
  "join sep [] = []"
| "join sep [x] = x"
| "join sep (x # y # ys) = x @ sep @ join sep (y # ys)"

text \<open>\<open>page.save(content, summary)\<close>, \<open>None\<close> where it raises.\<close>

definition page_save :: "env \<Rightarrow> wiki \<Rightarrow> string \<Rightarrow> string \<Rightarrow> wiki option" where
  "page_save e w title content =
     (if save_raises e title then None
      else Some (w\<lparr>pages := (pages w)(title \<mapsto> content), saved := saved w @ [(title, content)]\<rparr>))"

text \<open>\<open>WikiClient.create_page\<close>\<close>

definition create_page ::
  "env \<Rightarrow> wiki \<Rightarrow> string \<Rightarrow> string \<Rightarrow> string list option \<Rightarrow> bool \<times> wiki" where
  "create_page e w title content categories =
     (if \<not> connected w then (False, w)
      else
        (let content' =
               (case categories of
                  None \<Rightarrow> content
                | Some cs \<Rightarrow>
                    if cs = [] then content
                    else content @ nl @ nl @ ''[[Category:'' @ join ('']]'' @ nl @ ''[[Category:'') cs @ '']]'')
         in case page_save e w title content' of
              None \<Rightarrow> (False, w)
            | Some w' \<Rightarrow> (True, w')))"

text \<open>\<open>WikiClient.edit_page\<close>\<close>

definition edit_page :: "env \<Rightarrow> wiki \<Rightarrow> string \<Rightarrow> string \<Rightarrow> bool \<Rightarrow> bool \<times> wiki" where
  "edit_page e w title content append_mode =
     (if \<not> connected w then (False, w)
      else
        (case pages w title of
           None \<Rightarrow> create_page e w title content None
         | Some current_content \<Rightarrow>
             (let new_content = (if append_mode then current_content @ nl @ nl @ content else content)
              in case page_save e w title new_content of
                   None \<Rightarrow> (False, w)
                 | Some w' \<Rightarrow> (True, w'))))"

section \<open>The pipeline: main.py\<close>

text \<open>
  What the run owns: the table, the wiki client, the prompts posted by the analysis
  client, the requests made to the chat platform (the \<open>offset_id\<close> of each and what
  came back), the two counters of the history pass, and the ids of the messages that the
  \<open>for\<close> loop of the history pass took, in order (the body of that loop writes the
  id to the log on each of its paths). A step below is one message taken through the
  code from its first line to its last: the interleaving of the live handler with the
  history pass at the \<open>await\<close> points is not part of the model.
\<close>

record bot =
  db :: "message_row list"
  wiki_client :: wiki
  ollama_posts :: "string list"
  requests :: "(int \<times> source_message list option) list"
  total_processed :: nat
  total_skipped :: nat
  visits :: "int list"

text \<open>The literals of the page: the fallback title and the lines of the metadata block.\<close>

definition fallback_prefix :: string where
  "fallback_prefix =
     [CHR 0xD0, CHR 0xA1, CHR 0xD0, CHR 0xBE, CHR 0xD0, CHR 0xBE, CHR 0xD0, CHR 0xB1, CHR 0xD1, CHR 0x89,
      CHR 0xD0, CHR 0xB5, CHR 0xD0, CHR 0xBD, CHR 0xD0, CHR 0xB8, CHR 0xD0, CHR 0xB5, CHR 0x5F]"

definition metadata_heading :: string where
  "metadata_heading =
     ''### '' @ [CHR 0xD0, CHR 0x9C, CHR 0xD0, CHR 0xB5, CHR 0xD1, CHR 0x82, CHR 0xD0, CHR 0xB0, CHR 0xD0, CHR 0xB4,
                 CHR 0xD0, CHR 0xB0, CHR 0xD0, CHR 0xBD, CHR 0xD0, CHR 0xBD, CHR 0xD1, CHR 0x8B, CHR 0xD0, CHR 0xB5]"

definition date_label :: string where
  "date_label = ''- '' @ [CHR 0xD0, CHR 0x94, CHR 0xD0, CHR 0xB0, CHR 0xD1, CHR 0x82, CHR 0xD0, CHR 0xB0] @ '': ''"

definition author_label :: string where
  "author_label =
     ''- '' @ [CHR 0xD0, CHR 0x90, CHR 0xD0, CHR 0xB2, CHR 0xD1, CHR 0x82, CHR 0xD0, CHR 0xBE, CHR 0xD1, CHR 0x80] @ '': ''"

definition id_label :: string where
  "id_label =
     ''- ID '' @ [CHR 0xD1, CHR 0x81, CHR 0xD0, CHR 0xBE, CHR 0xD0, CHR 0xBE, CHR 0xD0, CHR 0xB1, CHR 0xD1, CHR 0x89,
                  CHR 0xD0, CHR 0xB5, CHR 0xD0, CHR 0xBD, CHR 0xD0, CHR 0xB8, CHR 0xD1, CHR 0x8F] @ '': ''"

text \<open>\<open>analysis.get('title', f"..._{message.id}")\<close>\<close>

definition page_title :: "pydict \<Rightarrow> int \<Rightarrow> json" where
  "page_title an mid =
     (case map_of an ''title'' of None \<Rightarrow> JStr (fallback_prefix @ str_int mid) | Some v \<Rightarrow> v)"

text \<open>\<open>str(x)\<close> for a value that is a \<open>str\<close> or \<open>None\<close>.\<close>

definition str_opt_text :: "string option \<Rightarrow> string" where
  "str_opt_text x = (case x of None \<Rightarrow> ''None'' | Some t \<Rightarrow> t)"

text \<open>The page text: lines 195 to 199, and again 295 to 299.\<close>

definition page_content :: "string \<Rightarrow> source_message \<Rightarrow> string" where
  "page_content title m =
     ''## '' @ title @ nl @ nl @ str_opt_text (m_text m) @ nl @ nl @
     metadata_heading @ nl @
     date_label @ m_date m @ nl @
     author_label @ str_opt_int (m_sender_id m) @ nl @
     id_label @ str_int (m_id m) @ nl"

text \<open>
  Lines 194 to 211 of the history pass and 294 to 310 of the live handler are the same
  text: the title, the page, \<open>edit_page\<close> in append mode and, when it returned \<open>True\<close>,
  \<open>mark_message_as_processed\<close>. The result says whether \<open>edit_page\<close> returned
  \<open>True\<close>. Neither call raises, whatever the title: both catch every exception.
\<close>

definition publish :: "env \<Rightarrow> source_message \<Rightarrow> pydict \<Rightarrow> bot \<Rightarrow> bool \<times> bot" where
  "publish e m an b =
     (case page_title an (m_id m) of
        JStr title \<Rightarrow>
          (case edit_page e (wiki_client b) title (page_content title m) True of
             (True, w) \<Rightarrow>
               (True, b\<lparr>wiki_client := w,
                         db := snd (mark_message_as_processed (db b) (m_id m) title)\<rparr>)
           | (False, w) \<Rightarrow> (False, b\<lparr>wiki_client := w\<rparr>))
      | other \<Rightarrow>
          (case edit_page_other e other m (wiki_client b) of
             (True, w) \<Rightarrow>
               (True, b\<lparr>wiki_client := w, db := snd (mark_other e (db b) (m_id m) other)\<rparr>)
           | (False, w) \<Rightarrow> (False, b\<lparr>wiki_client := w\<rparr>)))"

text \<open>\<open>not message.text\<close>: the text is \<open>None\<close> or empty.\<close>

definition no_text :: "source_message \<Rightarrow> bool" where
  "no_text m \<longleftrightarrow> (case m_text m of None \<Rightarrow> True | Some t \<Rightarrow> t = [])"

text \<open>
  The body of the \<open>for\<close> loop of the history pass (lines 179 to 234), for one message;
  \<open>processed_messages\<close> is the list read before the loop. Nothing leaves the body as
  an exception: every call in it catches its own, and the body has its own \<open>except\<close>.
\<close>

definition backfill_message :: "env \<Rightarrow> int list \<Rightarrow> source_message \<Rightarrow> bot \<Rightarrow> bot" where
  "backfill_message e processed_messages m b0 =
     (let b = b0\<lparr>visits := visits b0 @ [m_id m]\<rparr> in
      if no_text m then b
      else if m_id m \<notin> set processed_messages then
        (case analyze_text e (ollama_posts b) (m_text m) of
           (None, posts) \<Rightarrow> b\<lparr>ollama_posts := posts\<rparr>
         | (Some an, posts) \<Rightarrow>
             if an = [] then b\<lparr>ollama_posts := posts\<rparr>
             else
               (case publish e m an (b\<lparr>ollama_posts := posts\<rparr>) of
                  (ok, b') \<Rightarrow>
                    (let b'' = (if ok then b'\<lparr>total_processed := total_processed b' + 1\<rparr> else b')
                     in b''\<lparr>db := snd (add_message (json_dumps e) (db b'') (m_id m) (m_chat_id m)
                                            (m_sender_id m) (m_text m) (m_date m) (Some an))\<rparr>)))
      else b\<lparr>total_skipped := total_skipped b + 1\<rparr>)"

text \<open>The \<open>for\<close> loop over a page: the body for each message, in the order of the page.\<close>

fun backfill_page :: "env \<Rightarrow> int list \<Rightarrow> source_message list \<Rightarrow> bot \<Rightarrow> bot" where
  "backfill_page e processed_messages [] b = b"
| "backfill_page e processed_messages (m # ms) b =
     backfill_page e processed_messages ms (backfill_message e processed_messages m b)"

definition limit :: nat where
  "limit = 100"

text \<open>
  The \<open>while True\<close> loop of the history pass (lines 160 to 245), from an \<open>offset_id\<close>.
  The loop has no bound of its own, so the first argument counts the iterations it may
  still make: \<open>None\<close> says that they did not suffice.
\<close>

fun backfill_loop :: "nat \<Rightarrow> env \<Rightarrow> int \<Rightarrow> bot \<Rightarrow> bot option" where
  "backfill_loop 0 e offset_id b = None"
| "backfill_loop (Suc fuel) e offset_id b =
     (case get_messages e limit offset_id of
        None \<Rightarrow> Some (b\<lparr>requests := requests b @ [(offset_id, None)]\<rparr>)
      | Some messages \<Rightarrow>
          (let b1 = b\<lparr>requests := requests b @ [(offset_id, Some messages)]\<rparr> in
           if messages = [] then Some b1
           else backfill_loop fuel e (m_id (last messages))
                  (backfill_page e (get_processed_messages (db b1)) messages b1)))"

text \<open>\<open>handle_message\<close>, the handler of a new message (lines 259 to 315).\<close>

definition handle_message :: "env \<Rightarrow> source_message \<Rightarrow> bot \<Rightarrow> bot" where
  "handle_message e m b =
     (if m_out m then b
      else
        (case add_message (json_dumps e) (db b) (m_id m) (m_chat_id m) (m_sender_id m)
                (m_text m) (m_date m) None of
           (None, rows) \<Rightarrow> b\<lparr>db := rows\<rparr>
         | (Some message, rows) \<Rightarrow>
             (case analyze_text e (ollama_posts b) (m_text m) of
                (None, posts) \<Rightarrow> b\<lparr>db := rows, ollama_posts := posts\<rparr>
              | (Some an, posts) \<Rightarrow>
                  if an = [] then b\<lparr>db := rows, ollama_posts := posts\<rparr>
                  else snd (publish e m an (b\<lparr>db := rows, ollama_posts := posts\<rparr>)))))"

section \<open>The chat platform\<close>

text \<open>
  Modelled from the spec: the chat platform's \<open>getMessages(conversationRef, limit,
  beforeId)\<close>, which is the library call \<open>client.get_messages\<close> of the source and not
  code of the repository. The conversation is the list of its messages, newest first; a
  page holds the first \<open>limit\<close> messages older than the cursor, and the cursor
  \<open>0\<close> stands for the most recent message.
\<close>

definition platform_get_messages ::
  "source_message list \<Rightarrow> nat \<Rightarrow> int \<Rightarrow> source_message list option" where
  "platform_get_messages history n offset_id =
     Some (take n (filter (\<lambda>m. offset_id = 0 \<or> m_id m < offset_id) history))"

text \<open>A conversation as the platform holds it: ids positive and falling from the newest.\<close>

definition conversation :: "source_message list \<Rightarrow> bool" where
  "conversation history \<longleftrightarrow>
     sorted_wrt (\<lambda>a b. m_id b < m_id a) history \<and> list_all (\<lambda>m. 0 < m_id m) history"

text \<open>
  The messages that came back from the chat platform, read off a list of requests: those
  of every page, in order.
\<close>

definition fetched :: "(int \<times> source_message list option) list \<Rightarrow> source_message list" where
  "fetched reqs = concat (map (\<lambda>r. case snd r of None \<Rightarrow> [] | Some page \<Rightarrow> page) reqs)"

section \<open>Sample inputs\<close>

text \<open>
  The inputs of the examples below: an answer of the model that wraps a JSON object in
  prose, the object alone, a \<open>json.loads\<close> that knows that one object, a world in which
  the analysis service gives the same reply to every request, the wiki saves every
  page and a title that is no \<open>str\<close> is refused, a message, and the state of a fresh
  run (empty table, wiki connected and empty).
\<close>

definition title_json :: string where
  "title_json = ''{'' @ [CHR 0x22] @ ''title'' @ [CHR 0x22] @ '':'' @ [CHR 0x22] @ ''X'' @ [CHR 0x22] @ ''}''"

definition prose_answer :: string where
  "prose_answer = ''Here you go: '' @ title_json @ '' enjoy!''"

definition sample_loads :: "string \<Rightarrow> pydict option" where
  "sample_loads s = (if s = title_json then Some [(''title'', JStr ''X'')] else None)"

definition good_reply :: http_reply where
  "good_reply = Reply 200 (Some (JObj [(''response'', JStr prose_answer)]))"

definition sample_env :: "http_reply \<Rightarrow> env" where
  "sample_env reply =
     \<lparr> json_loads = sample_loads, json_dumps = (\<lambda>d. ''{}''), ollama_post = (\<lambda>n prompt. reply),
       save_raises = (\<lambda>title. False), get_messages = (\<lambda>n offset_id. Some []),
       edit_page_other = (\<lambda>other m w. (False, w)), mark_other = (\<lambda>rows mid other. (False, rows)) \<rparr>"

definition sample_message :: "int \<Rightarrow> string option \<Rightarrow> source_message" where
  "sample_message i txt =
     \<lparr> m_id = i, m_chat_id = 7, m_sender_id = Some 3, m_text = txt, m_date = ''2024-05-01'',
       m_out = False \<rparr>"

definition fresh_bot :: bot where
  "fresh_bot =
     \<lparr> db = [], wiki_client = \<lparr> connected = True, pages = Map.empty, saved = [] \<rparr>,
       ollama_posts = [], requests = [], total_processed = 0, total_skipped = 0, visits = [] \<rparr>"

text \<open>
  A conversation of \<open>n\<close> messages with the ids \<open>n\<close> down to \<open>1\<close>, the sample world
  with a conversation on the chat platform, and the sample world with a chat platform
  whose \<open>get_messages\<close> raises.
\<close>

definition sample_history :: "nat \<Rightarrow> source_message list" where
  "sample_history n = map (\<lambda>i. sample_message (int i) (Some ''hi'')) (rev [1..<Suc n])"

definition history_env :: "source_message list \<Rightarrow> env" where
  "history_env history = (sample_env good_reply)\<lparr>get_messages := platform_get_messages history\<rparr>"

definition unreachable_env :: env where
  "unreachable_env = (sample_env good_reply)\<lparr>get_messages := (\<lambda>n offset_id. None)\<rparr>"

section \<open>Properties of the ledger\<close>

lemma filter_by_mark_upd:
  "filter_by_message_id mid
     (map (\<lambda>r. if message_id r = mid then r\<lparr>is_processed := True, wiki_page := Some page\<rparr> else r) rows)
   = map (\<lambda>r. r\<lparr>is_processed := True, wiki_page := Some page\<rparr>) (filter_by_message_id mid rows)"
  by (induction rows) (auto simp: filter_by_message_id_def)

lemma map_message_id_mark_upd:
  "map message_id
     (map (\<lambda>r. if message_id r = mid then r\<lparr>is_processed := True, wiki_page := Some page\<rparr> else r) rows)
   = map message_id rows"
  by (induction rows) auto

lemma mark_absent:
  "filter_by_message_id mid rows = [] \<Longrightarrow> mark_message_as_processed rows mid page = (False, rows)"
  by (simp add: mark_message_as_processed_def)

lemma mark_present:
  "filter_by_message_id mid rows = [m] \<Longrightarrow>
   mark_message_as_processed rows mid page =
     (True, map (\<lambda>r. if message_id r = mid
                      then r\<lparr>is_processed := True, wiki_page := Some page\<rparr> else r) rows)"
  by (simp add: mark_message_as_processed_def)

lemma mark_many:
  "filter_by_message_id mid rows = r # r' # rs \<Longrightarrow>
   mark_message_as_processed rows mid page = (False, rows)"
  by (simp add: mark_message_as_processed_def)

lemma mark_twice:
  "mark_message_as_processed (snd (mark_message_as_processed rows mid page)) mid page
   = mark_message_as_processed rows mid page"
proof (cases "filter_by_message_id mid rows" rule: scalar_one_or_none.cases)
  case 1
  then show ?thesis by (simp add: mark_absent)
next
  case (2 m)
  let ?u = "\<lambda>r. if message_id r = mid then r\<lparr>is_processed := True, wiki_page := Some page\<rparr> else r"
  have a: "mark_message_as_processed rows mid page = (True, map ?u rows)"
    using 2 by (rule mark_present)
  have "filter_by_message_id mid (map ?u rows) = [m\<lparr>is_processed := True, wiki_page := Some page\<rparr>]"
    using 2 by (simp add: filter_by_mark_upd)
  then have "mark_message_as_processed (map ?u rows) mid page = (True, map ?u (map ?u rows))"
    by (rule mark_present)
  moreover have "map ?u (map ?u rows) = map ?u rows"
    by (induction rows) auto
  ultimately show ?thesis using a by simp
next
  case (3 r r' rs)
  then show ?thesis by (simp add: mark_many)
qed

lemma add_absent:
  "filter_by_message_id mid rows = [] \<Longrightarrow>
   add_message dumps rows mid chat uid txt dt an =
     (let message = \<lparr> message_id = mid, chat_id = chat, user_id = uid, row_text = txt,
                      date = dt, is_processed = False, wiki_page = None,
                      analysis = (case an of None \<Rightarrow> None
                                  | Some a \<Rightarrow> if a = [] then None else Some (dumps a)) \<rparr>
      in (Some message, rows @ [message]))"
  by (simp add: add_message_def)

lemma add_present:
  "filter_by_message_id mid rows = [m] \<Longrightarrow>
   add_message dumps rows mid chat uid txt dt an = (Some m, rows)"
  by (simp add: add_message_def)

lemma add_many:
  "filter_by_message_id mid rows = r # r' # rs \<Longrightarrow>
   add_message dumps rows mid chat uid txt dt an = (None, rows)"
  by (simp add: add_message_def)

lemma ledger_inv_add:
  assumes "ledger_inv rows"
  shows "ledger_inv (snd (add_message dumps rows mid chat uid txt dt an))"
proof (cases "filter_by_message_id mid rows" rule: scalar_one_or_none.cases)
  case 1
  then have "mid \<notin> set (map message_id rows)"
    by (auto simp: filter_by_message_id_def filter_empty_conv)
  with assms 1 show ?thesis
    by (simp add: add_absent ledger_inv_def Let_def)
next
  case (2 m)
  with assms show ?thesis by (simp add: add_present)
next
  case (3 r r' rs)
  with assms show ?thesis by (simp add: add_many)
qed

lemma ledger_inv_mark:
  assumes "ledger_inv rows"
  shows "ledger_inv (snd (mark_message_as_processed rows mid page))"
proof (cases "filter_by_message_id mid rows" rule: scalar_one_or_none.cases)
  case 1
  with assms show ?thesis by (simp add: mark_absent)
next
  case (2 m)
  have "list_all (\<lambda>r. (wiki_page r \<noteq> None) = is_processed r) rows \<Longrightarrow>
        list_all (\<lambda>r. (wiki_page r \<noteq> None) = is_processed r)
          (map (\<lambda>r. if message_id r = mid
                     then r\<lparr>is_processed := True, wiki_page := Some page\<rparr> else r) rows)"
    by (induction rows) auto
  with assms 2 show ?thesis
    by (simp add: mark_present [OF 2] ledger_inv_def map_message_id_mark_upd del: map_map)
next
  case (3 r r' rs)
  with assms show ?thesis by (simp add: mark_many)
qed

text \<open>
  C4, as the code has it. \<open>mark_message_as_processed\<close> returns \<open>False\<close> and leaves the
  table as it is when no row has the id. When one row has it, the call returns \<open>True\<close>
  and sets \<open>is_processed\<close> and \<open>wiki_page\<close> of that row, whatever the row held
  before: a row already processed under another page gets the new page. A second call
  with the same page returns what the first returned and leaves the table of the first.
\<close>

theorem mark_message_as_processed_cases:
  "(filter_by_message_id mid rows = [] \<longrightarrow>
      mark_message_as_processed rows mid page = (False, rows)) \<and>
   (\<forall>m. filter_by_message_id mid rows = [m] \<longrightarrow>
      fst (mark_message_as_processed rows mid page) = True \<and>
      filter_by_message_id mid (snd (mark_message_as_processed rows mid page)) =
        [m\<lparr>is_processed := True, wiki_page := Some page\<rparr>] \<and>
      filter (\<lambda>r. message_id r \<noteq> mid) (snd (mark_message_as_processed rows mid page)) =
        filter (\<lambda>r. message_id r \<noteq> mid) rows) \<and>
   mark_message_as_processed (snd (mark_message_as_processed rows mid page)) mid page =
     mark_message_as_processed rows mid page"
proof (intro conjI allI impI)
  show "mark_message_as_processed (snd (mark_message_as_processed rows mid page)) mid page =
        mark_message_as_processed rows mid page"
    by (rule mark_twice)
next
  assume "filter_by_message_id mid rows = []"
  then show "mark_message_as_processed rows mid page = (False, rows)"
    by (rule mark_absent)
next
  fix m assume m: "filter_by_message_id mid rows = [m]"
  show "fst (mark_message_as_processed rows mid page) = True"
    by (simp add: mark_present [OF m])
  show "filter_by_message_id mid (snd (mark_message_as_processed rows mid page)) =
        [m\<lparr>is_processed := True, wiki_page := Some page\<rparr>]"
    using m by (simp add: mark_present [OF m] filter_by_mark_upd)
  show "filter (\<lambda>r. message_id r \<noteq> mid) (snd (mark_message_as_processed rows mid page)) =
        filter (\<lambda>r. message_id r \<noteq> mid) rows"
    unfolding mark_present [OF m] snd_conv by (induction rows) auto
qed

text \<open>
  A table with one row for message 1, processed under the page \<open>A\<close>, and the same
  row after it was marked under \<open>B\<close>.
\<close>

theorem mark_message_as_processed_cases_witness:
  "mark_message_as_processed [] 1 ''B'' = (False, []) \<and>
   mark_message_as_processed
     [\<lparr>message_id = 1, chat_id = 7, user_id = Some 3, row_text = Some ''hi'', date = ''d'',
       is_processed = True, wiki_page = Some ''A'', analysis = None\<rparr>] 1 ''B'' =
     (True, [\<lparr>message_id = 1, chat_id = 7, user_id = Some 3, row_text = Some ''hi'', date = ''d'',
              is_processed = True, wiki_page = Some ''B'', analysis = None\<rparr>])"
  using mark_message_as_processed_cases [of 1 "[]" "''B''"]
        mark_message_as_processed_cases [of 1
          "[\<lparr>message_id = 1, chat_id = 7, user_id = Some 3, row_text = Some ''hi'', date = ''d'',
             is_processed = True, wiki_page = Some ''A'', analysis = None\<rparr>]" "''B''"]
  by (simp add: mark_message_as_processed_def filter_by_message_id_def)

text \<open>
  C4 as the spec words it fails on a row that is already processed under another page:
  the call is no no-op and does not return \<open>False\<close>; it returns \<open>True\<close> and replaces
  the page \<open>A\<close> of message 1 by \<open>B\<close>.
\<close>

theorem mark_message_as_processed_other_key_counterexample:
  "mark_message_as_processed
     [\<lparr>message_id = 1, chat_id = 7, user_id = Some 3, row_text = Some ''hi'', date = ''d'',
       is_processed = True, wiki_page = Some ''A'', analysis = None\<rparr>] 1 ''B'' \<noteq>
   (False, [\<lparr>message_id = 1, chat_id = 7, user_id = Some 3, row_text = Some ''hi'', date = ''d'',
             is_processed = True, wiki_page = Some ''A'', analysis = None\<rparr>])"
  by (simp add: mark_message_as_processed_def filter_by_message_id_def)

text \<open>
  C10. \<open>add_message\<close> and \<open>mark_message_as_processed\<close> keep the invariant of the
  table (at most one row for an id; a page exactly on the processed rows); the two
  reading operations leave the table alone. A row that \<open>add_message\<close> creates is
  unprocessed and has no page, and a call of \<open>mark_message_as_processed\<close> that
  returns \<open>True\<close> leaves every row of the id processed and holding the page.
\<close>

theorem ledger_operations_keep_invariant:
  "ledger_inv rows \<longrightarrow>
     ledger_inv (snd (add_message dumps rows mid chat uid txt dt an)) \<and>
     ledger_inv (snd (mark_message_as_processed rows mid page)) \<and>
     (filter_by_message_id mid rows = [] \<longrightarrow>
        (\<exists>message. add_message dumps rows mid chat uid txt dt an = (Some message, rows @ [message]) \<and>
           message_id message = mid \<and> \<not> is_processed message \<and> wiki_page message = None)) \<and>
     (fst (mark_message_as_processed rows mid page) \<longrightarrow>
        filter_by_message_id mid (snd (mark_message_as_processed rows mid page)) \<noteq> [] \<and>
        list_all (\<lambda>r. is_processed r \<and> wiki_page r = Some page)
          (filter_by_message_id mid (snd (mark_message_as_processed rows mid page))))"
proof (intro impI conjI)
  assume inv: "ledger_inv rows"
  show "ledger_inv (snd (add_message dumps rows mid chat uid txt dt an))"
    using inv by (rule ledger_inv_add)
  show "ledger_inv (snd (mark_message_as_processed rows mid page))"
    using inv by (rule ledger_inv_mark)
next
  assume "filter_by_message_id mid rows = []"
  then show "\<exists>message. add_message dumps rows mid chat uid txt dt an = (Some message, rows @ [message]) \<and>
           message_id message = mid \<and> \<not> is_processed message \<and> wiki_page message = None"
    by (simp add: add_absent Let_def)
next
  assume t: "fst (mark_message_as_processed rows mid page)"
  then obtain m where m: "filter_by_message_id mid rows = [m]"
    by (cases "filter_by_message_id mid rows" rule: scalar_one_or_none.cases)
       (auto simp: mark_absent mark_many)
  show "filter_by_message_id mid (snd (mark_message_as_processed rows mid page)) \<noteq> []"
    using m by (simp add: mark_present [OF m] filter_by_mark_upd)
  show "list_all (\<lambda>r. is_processed r \<and> wiki_page r = Some page)
          (filter_by_message_id mid (snd (mark_message_as_processed rows mid page)))"
    using m by (simp add: mark_present [OF m] filter_by_mark_upd)
qed

text \<open>The empty table, message 1 added to it, and that row marked under the page \<open>T\<close>.\<close>

theorem ledger_operations_keep_invariant_witness:
  "ledger_inv [] \<and>
   ledger_inv (snd (add_message (\<lambda>d. ''{}'') [] 1 7 (Some 3) (Some ''hi'') ''d'' None)) \<and>
   ledger_inv (snd (mark_message_as_processed
     [\<lparr>message_id = 1, chat_id = 7, user_id = Some 3, row_text = Some ''hi'', date = ''d'',
       is_processed = False, wiki_page = None, analysis = None\<rparr>] 1 ''T'')) \<and>
   fst (mark_message_as_processed
     [\<lparr>message_id = 1, chat_id = 7, user_id = Some 3, row_text = Some ''hi'', date = ''d'',
       is_processed = False, wiki_page = None, analysis = None\<rparr>] 1 ''T'')"
  using ledger_operations_keep_invariant
          [of "[]" "\<lambda>d. ''{}''" 1 7 "Some 3" "Some ''hi''" "''d''" None "''T''"]
        ledger_operations_keep_invariant
          [of "[\<lparr>message_id = 1, chat_id = 7, user_id = Some 3, row_text = Some ''hi'', date = ''d'',
                 is_processed = False, wiki_page = None, analysis = None\<rparr>]"
              "\<lambda>d. ''{}''" 1 7 "Some 3" "Some ''hi''" "''d''" None "''T''"]
  by (simp add: ledger_inv_def mark_message_as_processed_def filter_by_message_id_def)

section \<open>Properties of the analysis gateway\<close>

lemma find_char_absent: "c \<notin> set s \<Longrightarrow> find_char c s = - 1"
  by (induction s) auto

lemma find_char_nonneg: "c \<in> set s \<Longrightarrow> 0 \<le> find_char c s"
  by (induction s) (auto simp: Let_def)

lemma find_char_first: "c \<notin> set pre \<Longrightarrow> find_char c (pre @ c # rest) = int (length pre)"
  by (induction pre) (auto simp: Let_def)

lemma rfind_char_absent: "c \<notin> set s \<Longrightarrow> rfind_char c s = - 1"
  by (simp add: rfind_char_def find_char_absent)

lemma rfind_char_last: "c \<notin> set post \<Longrightarrow> rfind_char c (pre @ c # post) = int (length pre)"
proof -
  assume "c \<notin> set post"
  then have "find_char c (rev post @ c # rev pre) = int (length post)"
    using find_char_first [of c "rev post" "rev pre"] by simp
  then show ?thesis by (simp add: rfind_char_def Let_def)
qed

lemma slice_middle: "slice (pre @ xs @ post) (int (length pre)) (int (length pre + length xs)) = xs"
  by (simp add: slice_def)

lemma not_space_open: "\<not> is_space (CHR ''{'')"
  by (simp add: is_space_def)

lemma not_space_close: "\<not> is_space (CHR ''}'')"
  by (simp add: is_space_def)

lemma strip_braced: "strip (CHR ''{'' # mid @ [CHR ''}'']) = CHR ''{'' # mid @ [CHR ''}'']"
  by (simp add: strip_def not_space_open not_space_close)

lemma strip_empty: "strip [] = []"
  by (simp add: strip_def)

lemma endswith_last: "endswith s p \<Longrightarrow> p \<noteq> [] \<Longrightarrow> last s = last p"
proof -
  assume e: "endswith s p" and p: "p \<noteq> []"
  then have d: "drop (length s - length p) s = p" and l: "length p \<le> length s"
    by (simp_all add: endswith_def)
  from p l have "length s - length p < length s" by (cases p) auto
  then have "last (drop (length s - length p) s) = last s" by (rule last_drop)
  with d show ?thesis by simp
qed

lemma clean_braced: "clean (CHR ''{'' # mid @ [CHR ''}'']) = CHR ''{'' # mid @ [CHR ''}'']"
proof -
  let ?t = "CHR ''{'' # mid @ [CHR ''}'']"
  have a: "\<not> startswith ?t fence_json"
    by (simp add: startswith_def fence_json_def fence_def)
  have b: "\<not> endswith ?t fence"
  proof
    assume "endswith ?t fence"
    then have "last ?t = last fence"
      by (rule endswith_last) (simp add: fence_def)
    then show False by (simp add: fence_def)
  qed
  show ?thesis
    by (simp add: clean_def Let_def strip_braced a b del: append.simps)
qed

lemma clean_empty: "clean [] = []"
  by (simp add: clean_def Let_def strip_empty startswith_def endswith_def fence_json_def fence_def)

lemma extract_json_braced:
  assumes "CHR ''{'' \<notin> set pre" and "CHR ''}'' \<notin> set post"
  shows "extract_json loads (pre @ CHR ''{'' # mid @ CHR ''}'' # post) =
         loads (CHR ''{'' # mid @ [CHR ''}''])"
proof -
  let ?r = "pre @ CHR ''{'' # mid @ CHR ''}'' # post"
  have s: "find_char (CHR ''{'') ?r = int (length pre)"
    using assms(1) by (rule find_char_first)
  have "rfind_char (CHR ''}'') ((pre @ CHR ''{'' # mid) @ CHR ''}'' # post) =
        int (length (pre @ CHR ''{'' # mid))"
    using assms(2) by (rule rfind_char_last)
  then have e: "rfind_char (CHR ''}'') ?r + 1 = int (length pre + length (CHR ''{'' # mid @ [CHR ''}'']))"
    by simp
  have "slice (pre @ (CHR ''{'' # mid @ [CHR ''}'']) @ post) (int (length pre))
          (int (length pre + length (CHR ''{'' # mid @ [CHR ''}'']))) = CHR ''{'' # mid @ [CHR ''}'']"
    by (rule slice_middle)
  then have sl: "slice ?r (int (length pre)) (int (length pre + length (CHR ''{'' # mid @ [CHR ''}''])))
                 = CHR ''{'' # mid @ [CHR ''}'']"
    by simp
  show ?thesis
    unfolding extract_json_def Let_def s e sl clean_braced by simp
qed

lemma extract_json_no_brace:
  "CHR ''{'' \<notin> set r \<or> CHR ''}'' \<notin> set r \<Longrightarrow> extract_json loads r = None"
  by (auto simp: extract_json_def Let_def find_char_absent rfind_char_absent)

lemma analyze_text_ok:
  "ollama_post e (length posts) (prompt_of t) = Reply 200 (Some (JObj result)) \<Longrightarrow>
   map_of result ''response'' = Some (JStr r) \<Longrightarrow>
   analyze_text e posts (Some t) = (extract_json (json_loads e) r, posts @ [prompt_of t])"
  by (simp add: analyze_text_def Let_def)

lemma analyze_text_posts: "snd (analyze_text e posts (Some t)) = posts @ [prompt_of t]"
  by (simp add: analyze_text_def Let_def split: http_reply.splits option.splits json.splits)

lemma analyze_text_none: "analyze_text e posts None = (None, posts)"
  by (simp add: analyze_text_def)

lemma extract_prose_answer: "extract_json loads prose_answer = loads title_json"
proof -
  have "extract_json loads
          (''Here you go: '' @ CHR ''{'' # ([CHR 0x22] @ ''title'' @ [CHR 0x22] @ '':'' @ [CHR 0x22] @ ''X'' @ [CHR 0x22]) @
             CHR ''}'' # '' enjoy!'') =
        loads (CHR ''{'' # ([CHR 0x22] @ ''title'' @ [CHR 0x22] @ '':'' @ [CHR 0x22] @ ''X'' @ [CHR 0x22]) @ [CHR ''}''])"
    by (rule extract_json_braced) simp_all
  then show ?thesis by (simp add: prose_answer_def title_json_def)
qed

text \<open>
  C6. Let the service answer 200 with a body whose \<open>response\<close> is the text \<open>r\<close>. If
  \<open>r\<close> has a first opening brace and, behind it, a last closing brace, the result of
  \<open>analyze_text\<close> is what \<open>json.loads\<close> makes of the text between the two,
  braces included (the code fence is looked for and never found on that text), so it is
  \<open>None\<close> when the parse fails; the prose-wrapped answer of the spec is parsed as the
  object alone. If \<open>r\<close> lacks one of the braces the result is \<open>None\<close>. So it is for
  a status other than 200, for a body that is no JSON object, and when the request
  itself raises: every failure is the value \<open>None\<close>.
\<close>

theorem analyze_text_extracts_or_fails:
  "(ollama_post e (length posts) (prompt_of t) = Reply 200 (Some (JObj result)) \<and>
    map_of result ''response'' = Some (JStr r) \<longrightarrow>
      (\<forall>pre mid post.
         r = pre @ CHR ''{'' # mid @ CHR ''}'' # post \<and> CHR ''{'' \<notin> set pre \<and> CHR ''}'' \<notin> set post \<longrightarrow>
           fst (analyze_text e posts (Some t)) = json_loads e (CHR ''{'' # mid @ [CHR ''}'']) \<and>
           (json_loads e (CHR ''{'' # mid @ [CHR ''}'']) = None \<longrightarrow>
              fst (analyze_text e posts (Some t)) = None)) \<and>
      (r = prose_answer \<longrightarrow> fst (analyze_text e posts (Some t)) = json_loads e title_json) \<and>
      (CHR ''{'' \<notin> set r \<or> CHR ''}'' \<notin> set r \<longrightarrow> fst (analyze_text e posts (Some t)) = None)) \<and>
   (\<forall>status body. ollama_post e (length posts) (prompt_of t) = Reply status body \<and> status \<noteq> 200 \<longrightarrow>
      fst (analyze_text e posts (Some t)) = None) \<and>
   (\<forall>body. ollama_post e (length posts) (prompt_of t) = Reply 200 body \<and>
      (\<forall>result. body \<noteq> Some (JObj result)) \<longrightarrow> fst (analyze_text e posts (Some t)) = None) \<and>
   (ollama_post e (length posts) (prompt_of t) = PostRaises \<longrightarrow>
      fst (analyze_text e posts (Some t)) = None)"
proof (intro conjI allI impI)
  assume "ollama_post e (length posts) (prompt_of t) = PostRaises"
  then show "fst (analyze_text e posts (Some t)) = None"
    by (simp add: analyze_text_def Let_def)
next
  fix status body
  assume "ollama_post e (length posts) (prompt_of t) = Reply status body \<and> status \<noteq> 200"
  then show "fst (analyze_text e posts (Some t)) = None"
    by (simp add: analyze_text_def Let_def)
next
  fix body
  assume "ollama_post e (length posts) (prompt_of t) = Reply 200 body \<and>
          (\<forall>result. body \<noteq> Some (JObj result))"
  then show "fst (analyze_text e posts (Some t)) = None"
    by (auto simp: analyze_text_def Let_def split: option.splits json.splits)
next
  assume ok: "ollama_post e (length posts) (prompt_of t) = Reply 200 (Some (JObj result)) \<and>
              map_of result ''response'' = Some (JStr r)"
  then have a: "fst (analyze_text e posts (Some t)) = extract_json (json_loads e) r"
    by (simp add: analyze_text_ok)
  {
    assume "r = prose_answer"
    with a show "fst (analyze_text e posts (Some t)) = json_loads e title_json"
      by (simp add: extract_prose_answer)
  }
  {
    assume "CHR ''{'' \<notin> set r \<or> CHR ''}'' \<notin> set r"
    with a show "fst (analyze_text e posts (Some t)) = None"
      by (simp add: extract_json_no_brace)
  }
  fix pre mid post
  assume r: "r = pre @ CHR ''{'' # mid @ CHR ''}'' # post \<and> CHR ''{'' \<notin> set pre \<and> CHR ''}'' \<notin> set post"
  with a show b: "fst (analyze_text e posts (Some t)) = json_loads e (CHR ''{'' # mid @ [CHR ''}''])"
    by (simp add: extract_json_braced)
  assume "json_loads e (CHR ''{'' # mid @ [CHR ''}'']) = None"
  with b show "fst (analyze_text e posts (Some t)) = None" by simp
qed

text \<open>
  The prose-wrapped answer gives the object with the title \<open>X\<close>; an answer without
  braces and a status 500 give \<open>None\<close>.
\<close>

theorem analyze_text_extracts_or_fails_witness:
  "fst (analyze_text (sample_env good_reply) [] (Some ''hello'')) = Some [(''title'', JStr ''X'')] \<and>
   fst (analyze_text (sample_env (Reply 200 (Some (JObj [(''response'', JStr ''no object here'')]))))
          [] (Some ''hello'')) = None \<and>
   fst (analyze_text (sample_env (Reply 500 None)) [] (Some ''hello'')) = None"
  using analyze_text_extracts_or_fails
          [of "sample_env good_reply" "[]" "''hello''" "[(''response'', JStr prose_answer)]" prose_answer]
        analyze_text_extracts_or_fails
          [of "sample_env (Reply 200 (Some (JObj [(''response'', JStr ''no object here'')])))" "[]"
              "''hello''" "[(''response'', JStr ''no object here'')]" "''no object here''"]
        analyze_text_extracts_or_fails
          [of "sample_env (Reply 500 None)" "[]" "''hello''" "[]" "[]"]
  by (simp add: sample_env_def good_reply_def sample_loads_def)

text \<open>
  C9, as the code has it. \<open>analyze_text\<close> does not look at its text before the
  request: for every text, the empty one and the blank ones among them, it posts one
  request, which carries the prompt built from that text, and what it returns is
  decided by the reply alone.
\<close>

theorem analyze_text_always_posts:
  "snd (analyze_text e posts (Some t)) = posts @ [prompt_of t] \<and>
   fst (analyze_text e posts (Some t)) =
     (case ollama_post e (length posts) (prompt_of t) of
        Reply status (Some (JObj result)) \<Rightarrow>
          if status = 200
          then (case map_of result ''response'' of
                  None \<Rightarrow> extract_json (json_loads e) []
                | Some (JStr r) \<Rightarrow> extract_json (json_loads e) r
                | Some _ \<Rightarrow> None)
          else None
      | _ \<Rightarrow> None)"
  by (simp add: analyze_text_def Let_def split: http_reply.splits option.splits json.splits)

text \<open>
  C9 as the spec words it fails on the empty text and on a text of three spaces: the
  request is posted (the list of posted prompts grows from nothing to one prompt) and
  the answer of the service is returned as the result; nothing is rejected.
\<close>

theorem analyze_text_blank_counterexample:
  "analyze_text (sample_env good_reply) [] (Some '''') =
     (Some [(''title'', JStr ''X'')], [prompt_of '''']) \<and>
   analyze_text (sample_env good_reply) [] (Some ''   '') =
     (Some [(''title'', JStr ''X'')], [prompt_of ''   ''])"
  by (simp add: analyze_text_def Let_def sample_env_def good_reply_def extract_prose_answer
        sample_loads_def)

section \<open>Properties of the publication target\<close>

lemma edit_page_existing:
  "connected w \<Longrightarrow> pages w title = Some old \<Longrightarrow>
   edit_page e w title content True =
     (if save_raises e title then (False, w)
      else (True, w\<lparr>pages := (pages w)(title \<mapsto> old @ nl @ nl @ content),
                     saved := saved w @ [(title, old @ nl @ nl @ content)]\<rparr>))"
  by (simp add: edit_page_def page_save_def Let_def)

lemma edit_page_missing:
  "connected w \<Longrightarrow> pages w title = None \<Longrightarrow>
   edit_page e w title content append_mode =
     (if save_raises e title then (False, w)
      else (True, w\<lparr>pages := (pages w)(title \<mapsto> content),
                     saved := saved w @ [(title, content)]\<rparr>))"
  by (simp add: edit_page_def create_page_def page_save_def Let_def)

lemma edit_page_unconnected: "\<not> connected w \<Longrightarrow> edit_page e w title content append_mode = (False, w)"
  by (simp add: edit_page_def)

lemma edit_page_True:
  "edit_page e w title content True = (True, w') \<Longrightarrow>
   connected w \<and> \<not> save_raises e title \<and>
   w' = w\<lparr>pages := (pages w)(title \<mapsto> (case pages w title of None \<Rightarrow> content
                                              | Some old \<Rightarrow> old @ nl @ nl @ content)),
          saved := saved w @ [(title, case pages w title of None \<Rightarrow> content
                                      | Some old \<Rightarrow> old @ nl @ nl @ content)]\<rparr>"
  by (cases "connected w"; cases "pages w title")
     (auto simp: edit_page_unconnected edit_page_missing edit_page_existing split: if_splits)

lemma edit_page_False:
  "edit_page e w title content True = (False, w') \<Longrightarrow> w' = w"
  by (cases "connected w"; cases "pages w title")
     (auto simp: edit_page_unconnected edit_page_missing edit_page_existing split: if_splits)

text \<open>
  C7. When \<open>edit_page\<close> in append mode returns \<open>True\<close>, the page holds the old
  text, two line feeds and the new text if it existed, and the new text alone if it did
  not; the other pages are as before. It returns \<open>True\<close> whenever the client is
  connected and the wiki accepts the save.
\<close>

theorem edit_page_append:
  "(\<forall>old. pages w title = Some old \<and> edit_page e w title content True = (True, w') \<longrightarrow>
      pages w' title = Some (old @ [CHR 0x0A, CHR 0x0A] @ content)) \<and>
   (pages w title = None \<and> edit_page e w title content True = (True, w') \<longrightarrow>
      pages w' title = Some content) \<and>
   (edit_page e w title content True = (True, w') \<longrightarrow>
      (\<forall>other. other \<noteq> title \<longrightarrow> pages w' other = pages w other)) \<and>
   (connected w \<and> \<not> save_raises e title \<longrightarrow> fst (edit_page e w title content True))"
proof (intro conjI allI impI)
  fix old
  assume "pages w title = Some old \<and> edit_page e w title content True = (True, w')"
  then show "pages w' title = Some (old @ [CHR 0x0A, CHR 0x0A] @ content)"
    using edit_page_True [of e w title content w'] by (simp add: nl_def)
next
  assume "pages w title = None \<and> edit_page e w title content True = (True, w')"
  then show "pages w' title = Some content"
    using edit_page_True [of e w title content w'] by simp
next
  fix other
  assume "edit_page e w title content True = (True, w')" and "other \<noteq> title"
  then show "pages w' other = pages w other"
    using edit_page_True [of e w title content w'] by simp
next
  assume "connected w \<and> \<not> save_raises e title"
  then show "fst (edit_page e w title content True)"
    by (cases "pages w title") (simp_all add: edit_page_missing edit_page_existing)
qed

text \<open>
  A wiki whose only page \<open>T\<close> reads \<open>old\<close>: appending \<open>new\<close> to \<open>T\<close> and to
  the missing page \<open>U\<close>.
\<close>

theorem edit_page_append_witness:
  "pages (snd (edit_page (sample_env good_reply)
                 \<lparr>connected = True, pages = [''T'' \<mapsto> ''old''], saved = []\<rparr> ''T'' ''new'' True)) ''T''
     = Some (''old'' @ [CHR 0x0A, CHR 0x0A] @ ''new'') \<and>
   pages (snd (edit_page (sample_env good_reply)
                 \<lparr>connected = True, pages = [''T'' \<mapsto> ''old''], saved = []\<rparr> ''U'' ''new'' True)) ''U''
     = Some ''new'' \<and>
   fst (edit_page (sample_env good_reply)
          \<lparr>connected = True, pages = [''T'' \<mapsto> ''old''], saved = []\<rparr> ''T'' ''new'' True)"
  using edit_page_append
          [of "\<lparr>connected = True, pages = [''T'' \<mapsto> ''old''], saved = []\<rparr>" "''T''"
              "sample_env good_reply" "''new''"
              "snd (edit_page (sample_env good_reply)
                      \<lparr>connected = True, pages = [''T'' \<mapsto> ''old''], saved = []\<rparr> ''T'' ''new'' True)"]
        edit_page_append
          [of "\<lparr>connected = True, pages = [''T'' \<mapsto> ''old''], saved = []\<rparr>" "''U''"
              "sample_env good_reply" "''new''"
              "snd (edit_page (sample_env good_reply)
                      \<lparr>connected = True, pages = [''T'' \<mapsto> ''old''], saved = []\<rparr> ''U'' ''new'' True)"]
  by (simp add: edit_page_def create_page_def page_save_def sample_env_def nl_def Let_def)

section \<open>Properties of the pipeline\<close>

lemma str_int_digit: "0 \<le> i \<Longrightarrow> i < 10 \<Longrightarrow> str_int i = [''0123456789'' ! nat i]"
  by (simp add: str_int_def digits.simps)

lemma page_title_absent:
  "map_of an ''title'' = None \<Longrightarrow> page_title an mid = JStr (fallback_prefix @ str_int mid)"
  by (simp add: page_title_def)

lemma publish_JStr:
  "page_title an (m_id m) = JStr title \<Longrightarrow>
   publish e m an b =
     (case edit_page e (wiki_client b) title (page_content title m) True of
        (True, w) \<Rightarrow>
          (True, b\<lparr>wiki_client := w,
                    db := snd (mark_message_as_processed (db b) (m_id m) title)\<rparr>)
      | (False, w) \<Rightarrow> (False, b\<lparr>wiki_client := w\<rparr>))"
  by (simp add: publish_def)

text \<open>\<open>publish\<close> touches the wiki client and the table, and nothing else of the run.\<close>

lemma publish_logs:
  "publish e m an b = (ok, b') \<Longrightarrow>
   requests b' = requests b \<and> visits b' = visits b \<and> ollama_posts b' = ollama_posts b \<and>
   total_processed b' = total_processed b \<and> total_skipped b' = total_skipped b"
  by (auto simp: publish_def split: json.splits prod.splits bool.splits)

lemma publish_saved:
  assumes "publish e m an b = (ok, b')" and "page_title an (m_id m) = JStr title"
  shows "if ok
         then (\<exists>body. saved (wiki_client b') = saved (wiki_client b) @ [(title, body)]) \<and>
              db b' = snd (mark_message_as_processed (db b) (m_id m) title)
         else wiki_client b' = wiki_client b \<and> db b' = db b"
proof (cases "edit_page e (wiki_client b) title (page_content title m) True")
  case (Pair r w)
  show ?thesis
  proof (cases r)
    case True
    with Pair have "edit_page e (wiki_client b) title (page_content title m) True = (True, w)"
      by simp
    from edit_page_True [OF this] Pair True assms show ?thesis
      by (auto simp: publish_JStr)
  next
    case False
    with Pair have "edit_page e (wiki_client b) title (page_content title m) True = (False, w)"
      by simp
    from edit_page_False [OF this] Pair False assms show ?thesis
      by (auto simp: publish_JStr)
  qed
qed

lemma backfill_message_no_text:
  "no_text m \<Longrightarrow>
   backfill_message e processed_messages m b = b\<lparr>visits := visits b @ [m_id m]\<rparr>"
  by (simp add: backfill_message_def Let_def)

lemma backfill_message_processed:
  "\<not> no_text m \<Longrightarrow> m_id m \<in> set processed_messages \<Longrightarrow>
   backfill_message e processed_messages m b =
     b\<lparr>visits := visits b @ [m_id m], total_skipped := total_skipped b + 1\<rparr>"
  by (simp add: backfill_message_def Let_def)

lemma backfill_message_analysed:
  "\<not> no_text m \<Longrightarrow> m_id m \<notin> set processed_messages \<Longrightarrow>
   analyze_text e (ollama_posts b) (m_text m) = (Some an, posts) \<Longrightarrow> an \<noteq> [] \<Longrightarrow>
   backfill_message e processed_messages m b =
     (case publish e m an (b\<lparr>visits := visits b @ [m_id m], ollama_posts := posts\<rparr>) of
        (ok, b') \<Rightarrow>
          (let b'' = (if ok then b'\<lparr>total_processed := total_processed b' + 1\<rparr> else b')
           in b''\<lparr>db := snd (add_message (json_dumps e) (db b'') (m_id m) (m_chat_id m)
                                  (m_sender_id m) (m_text m) (m_date m) (Some an))\<rparr>))"
  by (simp add: backfill_message_def Let_def)

lemma backfill_message_not_analysed:
  "\<not> no_text m \<Longrightarrow> m_id m \<notin> set processed_messages \<Longrightarrow>
   analyze_text e (ollama_posts b) (m_text m) = (r, posts) \<Longrightarrow> r = None \<or> r = Some [] \<Longrightarrow>
   backfill_message e processed_messages m b =
     b\<lparr>visits := visits b @ [m_id m], ollama_posts := posts\<rparr>"
  by (auto simp: backfill_message_def Let_def)

lemma handle_message_analysed:
  "\<not> m_out m \<Longrightarrow>
   add_message (json_dumps e) (db b) (m_id m) (m_chat_id m) (m_sender_id m) (m_text m) (m_date m) None
     = (Some message, rows) \<Longrightarrow>
   analyze_text e (ollama_posts b) (m_text m) = (Some an, posts) \<Longrightarrow> an \<noteq> [] \<Longrightarrow>
   handle_message e m b = snd (publish e m an (b\<lparr>db := rows, ollama_posts := posts\<rparr>))"
  by (simp add: handle_message_def)

lemma analyze_text_sample:
  "analyze_text (sample_env good_reply) posts (Some t) =
     (Some [(''title'', JStr ''X'')], posts @ [prompt_of t])"
  by (simp add: analyze_text_def Let_def sample_env_def good_reply_def extract_prose_answer
        sample_loads_def)

lemma page_title_sample: "page_title [(''title'', JStr ''X'')] mid = JStr ''X''"
  by (simp add: page_title_def)

lemma publish_sample_fresh:
  "wiki_client b = \<lparr> connected = True, pages = Map.empty, saved = [] \<rparr> \<Longrightarrow>
   publish (sample_env good_reply) m [(''title'', JStr ''X'')] b =
     (True,
      b\<lparr>wiki_client := \<lparr> connected = True, pages = [''X'' \<mapsto> page_content ''X'' m],
                          saved = [(''X'', page_content ''X'' m)] \<rparr>,
        db := snd (mark_message_as_processed (db b) (m_id m) ''X'')\<rparr>)"
proof -
  assume w: "wiki_client b = \<lparr> connected = True, pages = Map.empty, saved = [] \<rparr>"
  have "edit_page (sample_env good_reply) \<lparr> connected = True, pages = Map.empty, saved = [] \<rparr>
          ''X'' (page_content ''X'' m) True =
        (True, \<lparr> connected = True, pages = [''X'' \<mapsto> page_content ''X'' m],
                 saved = [(''X'', page_content ''X'' m)] \<rparr>)"
    by (simp add: edit_page_missing sample_env_def)
  then show ?thesis
    by (simp add: publish_JStr [OF page_title_sample] w)
qed

lemma publish_sample_existing:
  "wiki_client b = \<lparr> connected = True, pages = [''X'' \<mapsto> old], saved = log \<rparr> \<Longrightarrow>
   publish (sample_env good_reply) m [(''title'', JStr ''X'')] b =
     (True,
      b\<lparr>wiki_client := \<lparr> connected = True, pages = [''X'' \<mapsto> old @ nl @ nl @ page_content ''X'' m],
                          saved = log @ [(''X'', old @ nl @ nl @ page_content ''X'' m)] \<rparr>,
        db := snd (mark_message_as_processed (db b) (m_id m) ''X'')\<rparr>)"
proof -
  assume w: "wiki_client b = \<lparr> connected = True, pages = [''X'' \<mapsto> old], saved = log \<rparr>"
  have "edit_page (sample_env good_reply) \<lparr> connected = True, pages = [''X'' \<mapsto> old], saved = log \<rparr>
          ''X'' (page_content ''X'' m) True =
        (True, \<lparr> connected = True, pages = [''X'' \<mapsto> old @ nl @ nl @ page_content ''X'' m],
                 saved = log @ [(''X'', old @ nl @ nl @ page_content ''X'' m)] \<rparr>)"
    by (simp add: edit_page_existing sample_env_def)
  then show ?thesis
    by (simp add: publish_JStr [OF page_title_sample] w)
qed

lemma handle_message_sample_first:
  "handle_message (sample_env good_reply) (sample_message 1 (Some txt)) fresh_bot =
     \<lparr> db = [\<lparr> message_id = 1, chat_id = 7, user_id = Some 3, row_text = Some txt,
                date = ''2024-05-01'', is_processed = True, wiki_page = Some ''X'',
                analysis = None \<rparr>],
       wiki_client =
         \<lparr> connected = True,
           pages = [''X'' \<mapsto> page_content ''X'' (sample_message 1 (Some txt))],
           saved = [(''X'', page_content ''X'' (sample_message 1 (Some txt)))] \<rparr>,
       ollama_posts = [prompt_of txt], requests = [], total_processed = 0, total_skipped = 0,
       visits = [] \<rparr>"
proof -
  let ?m = "sample_message 1 (Some txt)"
  let ?r = "\<lparr> message_id = 1, chat_id = 7, user_id = Some 3, row_text = Some txt,
              date = ''2024-05-01'', is_processed = False, wiki_page = None, analysis = None \<rparr>"
  let ?b = "fresh_bot\<lparr>db := [?r], ollama_posts := [prompt_of txt]\<rparr>"
  have o: "\<not> m_out ?m" and i: "m_id ?m = 1" and x: "m_text ?m = Some txt"
    by (simp_all add: sample_message_def)
  have a: "add_message (json_dumps (sample_env good_reply)) (db fresh_bot) (m_id ?m) (m_chat_id ?m)
             (m_sender_id ?m) (m_text ?m) (m_date ?m) None = (Some ?r, [?r])"
    by (simp add: add_message_def filter_by_message_id_def Let_def fresh_bot_def sample_message_def)
  have n: "analyze_text (sample_env good_reply) (ollama_posts fresh_bot) (m_text ?m) =
           (Some [(''title'', JStr ''X'')], [prompt_of txt])"
    by (simp add: x analyze_text_sample fresh_bot_def)
  have k: "snd (mark_message_as_processed [?r] 1 ''X'') =
           [?r\<lparr>is_processed := True, wiki_page := Some ''X''\<rparr>]"
    by (simp add: mark_message_as_processed_def filter_by_message_id_def)
  have w: "wiki_client ?b = \<lparr> connected = True, pages = Map.empty, saved = [] \<rparr>"
    by (simp add: fresh_bot_def)
  have "handle_message (sample_env good_reply) ?m fresh_bot =
        snd (publish (sample_env good_reply) ?m [(''title'', JStr ''X'')] ?b)"
    by (rule handle_message_analysed [OF o a n]) simp
  then show ?thesis
    by (simp add: fresh_bot_def publish_sample_fresh i k)
qed

lemma handle_message_sample_second:
  "handle_message (sample_env good_reply) (sample_message 1 (Some txt))
     \<lparr> db = [\<lparr> message_id = 1, chat_id = 7, user_id = Some 3, row_text = Some txt,
                date = ''2024-05-01'', is_processed = True, wiki_page = Some ''X'',
                analysis = None \<rparr>],
       wiki_client = \<lparr> connected = True, pages = [''X'' \<mapsto> old], saved = log \<rparr>,
       ollama_posts = posts, requests = [], total_processed = 0, total_skipped = 0,
       visits = [] \<rparr> =
   \<lparr> db = [\<lparr> message_id = 1, chat_id = 7, user_id = Some 3, row_text = Some txt,
              date = ''2024-05-01'', is_processed = True, wiki_page = Some ''X'',
              analysis = None \<rparr>],
     wiki_client =
       \<lparr> connected = True,
         pages = [''X'' \<mapsto> old @ nl @ nl @ page_content ''X'' (sample_message 1 (Some txt))],
         saved = log @ [(''X'', old @ nl @ nl @ page_content ''X'' (sample_message 1 (Some txt)))] \<rparr>,
     ollama_posts = posts @ [prompt_of txt], requests = [], total_processed = 0,
     total_skipped = 0, visits = [] \<rparr>"
proof -
  let ?m = "sample_message 1 (Some txt)"
  let ?r = "\<lparr> message_id = 1, chat_id = 7, user_id = Some 3, row_text = Some txt,
              date = ''2024-05-01'', is_processed = True, wiki_page = Some ''X'', analysis = None \<rparr>"
  let ?b = "\<lparr> db = [?r], wiki_client = \<lparr> connected = True, pages = [''X'' \<mapsto> old], saved = log \<rparr>,
              ollama_posts = posts, requests = [], total_processed = 0, total_skipped = 0,
              visits = [] \<rparr>"
  have o: "\<not> m_out ?m" and i: "m_id ?m = 1" and x: "m_text ?m = Some txt"
    by (simp_all add: sample_message_def)
  have a: "add_message (json_dumps (sample_env good_reply)) (db ?b) (m_id ?m) (m_chat_id ?m)
             (m_sender_id ?m) (m_text ?m) (m_date ?m) None = (Some ?r, [?r])"
    by (simp add: add_message_def filter_by_message_id_def sample_message_def)
  have n: "analyze_text (sample_env good_reply) (ollama_posts ?b) (m_text ?m) =
           (Some [(''title'', JStr ''X'')], posts @ [prompt_of txt])"
    by (simp add: x analyze_text_sample)
  have k: "snd (mark_message_as_processed [?r] 1 ''X'') = [?r]"
    by (simp add: mark_message_as_processed_def filter_by_message_id_def)
  have w: "wiki_client (?b\<lparr>db := [?r], ollama_posts := posts @ [prompt_of txt]\<rparr>) =
           \<lparr> connected = True, pages = [''X'' \<mapsto> old], saved = log \<rparr>"
    by simp
  have "handle_message (sample_env good_reply) ?m ?b =
        snd (publish (sample_env good_reply) ?m [(''title'', JStr ''X'')]
               (?b\<lparr>db := [?r], ollama_posts := posts @ [prompt_of txt]\<rparr>))"
    by (rule handle_message_analysed [OF o a n]) simp
  then show ?thesis
    by (simp add: publish_sample_existing i k)
qed

text \<open>
  C1, on the live path. Message 1 arrives and is handled: it is published under
  \<open>X\<close> and marked processed. The same message arrives again: \<open>handle_message\<close>
  takes the existing row from \<open>add_message\<close>, does not read \<open>is_processed\<close>, and
  appends the page text to \<open>X\<close> a second time.
\<close>

theorem handle_message_republishes_processed:
  "get_processed_messages
     (db (handle_message (sample_env good_reply) (sample_message 1 (Some ''hi'')) fresh_bot)) = [1] \<and>
   saved (wiki_client
     (handle_message (sample_env good_reply) (sample_message 1 (Some ''hi'')) fresh_bot)) =
     [(''X'', page_content ''X'' (sample_message 1 (Some ''hi'')))] \<and>
   saved (wiki_client
     (handle_message (sample_env good_reply) (sample_message 1 (Some ''hi''))
        (handle_message (sample_env good_reply) (sample_message 1 (Some ''hi'')) fresh_bot))) =
     [(''X'', page_content ''X'' (sample_message 1 (Some ''hi''))),
      (''X'', page_content ''X'' (sample_message 1 (Some ''hi'')) @ [CHR 0x0A, CHR 0x0A] @
              page_content ''X'' (sample_message 1 (Some ''hi'')))]"
  by (simp add: handle_message_sample_first handle_message_sample_second get_processed_messages_def
        nl_def)

text \<open>
  The history pass does skip a processed message: no request, no page, one more
  skipped.
\<close>

lemma backfill_message_skips_processed:
  "m_id m \<in> set (get_processed_messages (db b)) \<Longrightarrow>
   backfill_message e (get_processed_messages (db b)) m b =
     (if no_text m then b\<lparr>visits := visits b @ [m_id m]\<rparr>
      else b\<lparr>visits := visits b @ [m_id m], total_skipped := total_skipped b + 1\<rparr>)"
  by (simp add: backfill_message_no_text backfill_message_processed)

text \<open>
  C3, on the live path. A message whose text is the empty string arrives on a fresh run:
  \<open>handle_message\<close> stores a row for it and posts the prompt built from the empty
  text to the analysis service.
\<close>

theorem handle_message_empty_text:
  "map message_id
     (db (handle_message (sample_env good_reply) (sample_message 1 (Some [])) fresh_bot)) = [1] \<and>
   map row_text
     (db (handle_message (sample_env good_reply) (sample_message 1 (Some [])) fresh_bot)) =
     [Some []] \<and>
   ollama_posts (handle_message (sample_env good_reply) (sample_message 1 (Some [])) fresh_bot) =
     [prompt_of []]"
  by (simp add: handle_message_sample_first)

text \<open>
  C5, as the code has it. When the analysis has no \<open>title\<close>, the title is the
  Cyrillic word of \<open>fallback_prefix\<close> with its underscore, followed by the id in
  decimal; on the history pass and in the live handler, a page that the step saves for
  the message is saved under that title.
\<close>

theorem fallback_title_both_paths:
  "map_of an ''title'' = None \<and> analyze_text e (ollama_posts b) (m_text m) = (Some an, posts) \<longrightarrow>
     page_title an (m_id m) = JStr (fallback_prefix @ str_int (m_id m)) \<and>
     (\<exists>b'. backfill_message e processed_messages m b = b' \<and>
        (saved (wiki_client b') = saved (wiki_client b) \<or>
         (\<exists>body. saved (wiki_client b') =
            saved (wiki_client b) @ [(fallback_prefix @ str_int (m_id m), body)]))) \<and>
     (\<exists>b'. handle_message e m b = b' \<and>
        (saved (wiki_client b') = saved (wiki_client b) \<or>
         (\<exists>body. saved (wiki_client b') =
            saved (wiki_client b) @ [(fallback_prefix @ str_int (m_id m), body)])))"
proof (intro impI conjI)
  assume h: "map_of an ''title'' = None \<and>
             analyze_text e (ollama_posts b) (m_text m) = (Some an, posts)"
  let ?t = "fallback_prefix @ str_int (m_id m)"
  from h show t: "page_title an (m_id m) = JStr ?t"
    by (simp add: page_title_absent)
  have p: "saved (wiki_client (snd (publish e m an c))) = saved (wiki_client c) \<or>
           (\<exists>body. saved (wiki_client (snd (publish e m an c))) = saved (wiki_client c) @ [(?t, body)])"
    for c
  proof (cases "publish e m an c")
    case (Pair ok b')
    from publish_saved [OF Pair t] Pair show ?thesis
      by (cases ok) auto
  qed
  show "\<exists>b'. backfill_message e processed_messages m b = b' \<and>
        (saved (wiki_client b') = saved (wiki_client b) \<or>
         (\<exists>body. saved (wiki_client b') = saved (wiki_client b) @ [(?t, body)]))"
  proof (cases "no_text m \<or> m_id m \<in> set processed_messages \<or> an = []")
    case True
    with h show ?thesis
      by (auto simp: backfill_message_def Let_def)
  next
    case False
    let ?c = "b\<lparr>visits := visits b @ [m_id m], ollama_posts := posts\<rparr>"
    obtain ok b' where o: "publish e m an ?c = (ok, b')" by (cases "publish e m an ?c")
    from p [of ?c] o have
      s: "saved (wiki_client b') = saved (wiki_client b) \<or>
          (\<exists>body. saved (wiki_client b') = saved (wiki_client b) @ [(?t, body)])"
      by simp
    from False h have "backfill_message e processed_messages m b =
        (case publish e m an ?c of
           (ok, b') \<Rightarrow>
             (let b'' = (if ok then b'\<lparr>total_processed := total_processed b' + 1\<rparr> else b')
              in b''\<lparr>db := snd (add_message (json_dumps e) (db b'') (m_id m) (m_chat_id m)
                                     (m_sender_id m) (m_text m) (m_date m) (Some an))\<rparr>))"
      by (intro backfill_message_analysed) auto
    with o s show ?thesis by (cases ok) (auto simp: Let_def)
  qed
  show "\<exists>b'. handle_message e m b = b' \<and>
        (saved (wiki_client b') = saved (wiki_client b) \<or>
         (\<exists>body. saved (wiki_client b') = saved (wiki_client b) @ [(?t, body)]))"
  proof (cases "add_message (json_dumps e) (db b) (m_id m) (m_chat_id m) (m_sender_id m)
                  (m_text m) (m_date m) None")
    case (Pair message rows)
    show ?thesis
    proof (cases "m_out m \<or> message = None \<or> an = []")
      case True
      with h Pair show ?thesis
        by (auto simp: handle_message_def split: option.splits)
    next
      case False
      then obtain r where r: "message = Some r" by auto
      from False h Pair r have "handle_message e m b =
          snd (publish e m an (b\<lparr>db := rows, ollama_posts := posts\<rparr>))"
        by (intro handle_message_analysed) auto
      with p [of "b\<lparr>db := rows, ollama_posts := posts\<rparr>"] show ?thesis by simp
    qed
  qed
qed

text \<open>
  An analysis with a summary and no title, for message 5: the title is the Cyrillic
  word, the underscore and \<open>5\<close>.
\<close>

theorem fallback_title_both_paths_witness:
  "analyze_text ((sample_env good_reply)\<lparr>json_loads := (\<lambda>s. Some [(''summary'', JStr ''s'')])\<rparr>)
     (ollama_posts fresh_bot) (m_text (sample_message 5 (Some ''hi''))) =
     (Some [(''summary'', JStr ''s'')], [prompt_of ''hi'']) \<and>
   page_title [(''summary'', JStr ''s'')] (m_id (sample_message 5 (Some ''hi''))) =
     JStr (fallback_prefix @ ''5'')"
proof -
  have a: "analyze_text ((sample_env good_reply)\<lparr>json_loads := (\<lambda>s. Some [(''summary'', JStr ''s'')])\<rparr>)
             (ollama_posts fresh_bot) (m_text (sample_message 5 (Some ''hi''))) =
           (Some [(''summary'', JStr ''s'')], [prompt_of ''hi''])"
    by (simp add: analyze_text_def Let_def sample_env_def good_reply_def extract_prose_answer
          fresh_bot_def sample_message_def)
  have "map_of [(''summary'', JStr ''s'')] ''title'' = None" by simp
  with a have h: "map_of [(''summary'', JStr ''s'')] ''title'' = None \<and>
      analyze_text ((sample_env good_reply)\<lparr>json_loads := (\<lambda>s. Some [(''summary'', JStr ''s'')])\<rparr>)
        (ollama_posts fresh_bot) (m_text (sample_message 5 (Some ''hi''))) =
      (Some [(''summary'', JStr ''s'')], [prompt_of ''hi''])"
    by simp
  note c = fallback_title_both_paths
             [where an = "[(''summary'', JStr ''s'')]"
                and e = "(sample_env good_reply)\<lparr>json_loads := (\<lambda>s. Some [(''summary'', JStr ''s'')])\<rparr>"
                and b = fresh_bot and m = "sample_message 5 (Some ''hi'')"
                and posts = "[prompt_of ''hi'']", THEN mp, OF h, THEN conjunct1]
  from c a show ?thesis
    by (simp add: sample_message_def str_int_digit)
qed

text \<open>
  C5 as the spec words it fails for every id: the title of message 5 is not
  \<open>Message_5\<close>, and the page that is saved for it is not saved under that name.
\<close>

theorem fallback_title_counterexample:
  "page_title [(''summary'', JStr ''s'')] 5 \<noteq> JStr (''Message_'' @ str_int 5) \<and>
   (case publish (sample_env good_reply) (sample_message 5 (Some ''hi'')) [(''summary'', JStr ''s'')]
           fresh_bot of
      (ok, b') \<Rightarrow> ok \<and> map fst (saved (wiki_client b')) \<noteq> [''Message_5''])"
proof -
  have t: "page_title [(''summary'', JStr ''s'')] (m_id (sample_message 5 (Some ''hi''))) =
           JStr (fallback_prefix @ ''5'')"
    by (simp add: page_title_def sample_message_def str_int_digit)
  have "edit_page (sample_env good_reply) (wiki_client fresh_bot) (fallback_prefix @ ''5'')
          (page_content (fallback_prefix @ ''5'') (sample_message 5 (Some ''hi''))) True =
        (True, (wiki_client fresh_bot)
           \<lparr>pages := (pages (wiki_client fresh_bot))
                (fallback_prefix @ ''5'' \<mapsto> page_content (fallback_prefix @ ''5'') (sample_message 5 (Some ''hi''))),
            saved := saved (wiki_client fresh_bot) @
               [(fallback_prefix @ ''5'',
                 page_content (fallback_prefix @ ''5'') (sample_message 5 (Some ''hi'')))]\<rparr>)"
    by (simp add: edit_page_missing fresh_bot_def sample_env_def)
  then have "case publish (sample_env good_reply) (sample_message 5 (Some ''hi''))
                    [(''summary'', JStr ''s'')] fresh_bot of
               (ok, b') \<Rightarrow> ok \<and> map fst (saved (wiki_client b')) \<noteq> [''Message_5'']"
    by (simp add: publish_JStr [OF t] fresh_bot_def fallback_prefix_def)
  moreover have "page_title [(''summary'', JStr ''s'')] 5 \<noteq> JStr (''Message_'' @ str_int 5)"
    by (simp add: page_title_def str_int_digit fallback_prefix_def)
  ultimately show ?thesis by simp
qed

text \<open>
  C2. On the history pass, take a message with a text and no row in the table, an
  analysis that succeeds and an \<open>edit_page\<close> that returns \<open>True\<close>. Then
  \<open>mark_message_as_processed\<close>, called on the table as it is before \<open>add_message\<close>,
  returns \<open>False\<close> and changes nothing; the step saves the page, counts the message as
  processed, and leaves one new row for it that is not processed and has no page, so the
  id is not among the processed ones. When the pass meets the message again in that
  state, and analysis and \<open>edit_page\<close> succeed again, the page is saved a second time.
\<close>

theorem backfill_marks_before_adding:
  "\<not> no_text m \<and> filter_by_message_id (m_id m) (db b) = [] \<and>
   analyze_text e (ollama_posts b) (m_text m) = (Some an, posts) \<and> an \<noteq> [] \<and>
   page_title an (m_id m) = JStr title \<and>
   edit_page e (wiki_client b) title (page_content title m) True = (True, w) \<longrightarrow>
     mark_message_as_processed (db b) (m_id m) title = (False, db b) \<and>
     (\<exists>b1 row.
        backfill_message e (get_processed_messages (db b)) m b = b1 \<and>
        wiki_client b1 = w \<and> length (saved w) = length (saved (wiki_client b)) + 1 \<and>
        total_processed b1 = total_processed b + 1 \<and>
        db b1 = db b @ [row] \<and> message_id row = m_id m \<and> \<not> is_processed row \<and>
        wiki_page row = None \<and>
        m_id m \<notin> set (get_processed_messages (db b1)) \<and>
        (\<forall>an2 posts2 title2 w2.
           analyze_text e (ollama_posts b1) (m_text m) = (Some an2, posts2) \<and> an2 \<noteq> [] \<and>
           page_title an2 (m_id m) = JStr title2 \<and>
           edit_page e w title2 (page_content title2 m) True = (True, w2) \<longrightarrow>
             (\<exists>b2. backfill_message e (get_processed_messages (db b1)) m b1 = b2 \<and>
                wiki_client b2 = w2 \<and>
                length (saved w2) = length (saved (wiki_client b)) + 2)))"
proof (intro impI)
  assume h: "\<not> no_text m \<and> filter_by_message_id (m_id m) (db b) = [] \<and>
   analyze_text e (ollama_posts b) (m_text m) = (Some an, posts) \<and> an \<noteq> [] \<and>
   page_title an (m_id m) = JStr title \<and>
   edit_page e (wiki_client b) title (page_content title m) True = (True, w)"
  let ?row = "\<lparr> message_id = m_id m, chat_id = m_chat_id m, user_id = m_sender_id m,
                 row_text = m_text m, date = m_date m, is_processed = False, wiki_page = None,
                 analysis = Some (json_dumps e an) \<rparr>"
  let ?b1 = "b\<lparr>visits := visits b @ [m_id m], ollama_posts := posts, wiki_client := w,
               total_processed := total_processed b + 1, db := db b @ [?row]\<rparr>"
  from h have absent: "filter_by_message_id (m_id m) (db b) = []" by simp
  have mark: "mark_message_as_processed (db b) (m_id m) title = (False, db b)"
    using absent by (rule mark_absent)
  have unprocessed: "m_id m \<notin> set (get_processed_messages (db b))"
    using absent by (auto simp: get_processed_messages_def filter_by_message_id_def filter_empty_conv)
  have add: "add_message (json_dumps e) (db b) (m_id m) (m_chat_id m) (m_sender_id m) (m_text m)
               (m_date m) (Some an) = (Some ?row, db b @ [?row])"
    using h by (simp add: add_absent [OF absent] Let_def)
  have pub: "publish e m an (b\<lparr>visits := visits b @ [m_id m], ollama_posts := posts\<rparr>) =
             (True, b\<lparr>visits := visits b @ [m_id m], ollama_posts := posts, wiki_client := w\<rparr>)"
    using h by (simp add: publish_JStr mark)
  have step1: "backfill_message e (get_processed_messages (db b)) m b = ?b1"
    using h unprocessed
    by (simp add: backfill_message_analysed [where an = an and posts = posts] pub add Let_def)
  have grow: "length (saved w) = length (saved (wiki_client b)) + 1"
    using h edit_page_True [of e "wiki_client b" title "page_content title m" w] by auto
  have unprocessed1: "m_id m \<notin> set (get_processed_messages (db ?b1))"
    using unprocessed by (simp add: get_processed_messages_def)
  have again: "\<exists>b2. backfill_message e (get_processed_messages (db ?b1)) m ?b1 = b2 \<and>
                 wiki_client b2 = w2 \<and> length (saved w2) = length (saved (wiki_client b)) + 2"
    if s: "analyze_text e (ollama_posts ?b1) (m_text m) = (Some an2, posts2) \<and> an2 \<noteq> [] \<and>
           page_title an2 (m_id m) = JStr title2 \<and>
           edit_page e w title2 (page_content title2 m) True = (True, w2)"
    for an2 posts2 title2 w2
  proof -
    let ?c = "?b1\<lparr>visits := visits ?b1 @ [m_id m], ollama_posts := posts2\<rparr>"
    from s have t2: "page_title an2 (m_id m) = JStr title2" by simp
    from s have e2: "edit_page e (wiki_client ?c) title2 (page_content title2 m) True = (True, w2)"
      by simp
    have "publish e m an2 ?c =
          (True, ?c\<lparr>wiki_client := w2,
                    db := snd (mark_message_as_processed (db b @ [?row]) (m_id m) title2)\<rparr>)"
      using e2 by (simp add: publish_JStr [OF t2])
    moreover have "backfill_message e (get_processed_messages (db ?b1)) m ?b1 =
        (case publish e m an2 ?c of
           (ok, b') \<Rightarrow>
             (let b'' = (if ok then b'\<lparr>total_processed := total_processed b' + 1\<rparr> else b')
              in b''\<lparr>db := snd (add_message (json_dumps e) (db b'') (m_id m) (m_chat_id m)
                                     (m_sender_id m) (m_text m) (m_date m) (Some an2))\<rparr>))"
      using h s unprocessed1 by (intro backfill_message_analysed) simp_all
    moreover have "length (saved w2) = length (saved w) + 1"
      using s edit_page_True [of e w title2 "page_content title2 m" w2] by auto
    ultimately show ?thesis
      using grow by (simp add: Let_def)
  qed
  show "mark_message_as_processed (db b) (m_id m) title = (False, db b) \<and>
     (\<exists>b1 row.
        backfill_message e (get_processed_messages (db b)) m b = b1 \<and>
        wiki_client b1 = w \<and> length (saved w) = length (saved (wiki_client b)) + 1 \<and>
        total_processed b1 = total_processed b + 1 \<and>
        db b1 = db b @ [row] \<and> message_id row = m_id m \<and> \<not> is_processed row \<and>
        wiki_page row = None \<and>
        m_id m \<notin> set (get_processed_messages (db b1)) \<and>
        (\<forall>an2 posts2 title2 w2.
           analyze_text e (ollama_posts b1) (m_text m) = (Some an2, posts2) \<and> an2 \<noteq> [] \<and>
           page_title an2 (m_id m) = JStr title2 \<and>
           edit_page e w title2 (page_content title2 m) True = (True, w2) \<longrightarrow>
             (\<exists>b2. backfill_message e (get_processed_messages (db b1)) m b1 = b2 \<and>
                wiki_client b2 = w2 \<and>
                length (saved w2) = length (saved (wiki_client b)) + 2)))"
  proof (rule conjI, rule mark, rule exI [of _ ?b1], rule exI [of _ ?row], intro conjI allI impI)
    show "backfill_message e (get_processed_messages (db b)) m b = ?b1" by (rule step1)
    show "length (saved w) = length (saved (wiki_client b)) + 1" by (rule grow)
    show "m_id m \<notin> set (get_processed_messages (db ?b1))" by (rule unprocessed1)
    fix an2 posts2 title2 w2
    assume "analyze_text e (ollama_posts ?b1) (m_text m) = (Some an2, posts2) \<and> an2 \<noteq> [] \<and>
           page_title an2 (m_id m) = JStr title2 \<and>
           edit_page e w title2 (page_content title2 m) True = (True, w2)"
    then show "\<exists>b2. backfill_message e (get_processed_messages (db ?b1)) m ?b1 = b2 \<and>
                 wiki_client b2 = w2 \<and> length (saved w2) = length (saved (wiki_client b)) + 2"
      by (rule again)
  qed simp_all
qed

text \<open>
  Message 1 with the text \<open>hi\<close> on a fresh run: the page \<open>X\<close> is saved once and
  the new row is not processed; the step taken again on the result saves the page a
  second time.
\<close>

theorem backfill_marks_before_adding_witness:
  "mark_message_as_processed (db fresh_bot) 1 ''X'' = (False, db fresh_bot) \<and>
   (\<exists>b1 row.
      backfill_message (sample_env good_reply) (get_processed_messages (db fresh_bot))
        (sample_message 1 (Some ''hi'')) fresh_bot = b1 \<and>
      db b1 = [row] \<and> \<not> is_processed row \<and> wiki_page row = None \<and>
      length (saved (wiki_client b1)) = 1 \<and> total_processed b1 = 1 \<and>
      (\<exists>b2. backfill_message (sample_env good_reply) (get_processed_messages (db b1))
               (sample_message 1 (Some ''hi'')) b1 = b2 \<and>
            length (saved (wiki_client b2)) = 2))"
proof -
  let ?m = "sample_message 1 (Some ''hi'')"
  let ?w = "\<lparr> connected = True, pages = [''X'' \<mapsto> page_content ''X'' ?m],
              saved = [(''X'', page_content ''X'' ?m)] \<rparr>"
  let ?w2 = "\<lparr> connected = True,
               pages = [''X'' \<mapsto> page_content ''X'' ?m @ nl @ nl @ page_content ''X'' ?m],
               saved = [(''X'', page_content ''X'' ?m),
                        (''X'', page_content ''X'' ?m @ nl @ nl @ page_content ''X'' ?m)] \<rparr>"
  have "edit_page (sample_env good_reply) \<lparr> connected = True, pages = Map.empty, saved = [] \<rparr>
          ''X'' (page_content ''X'' ?m) True = (True, ?w)"
    by (simp add: edit_page_missing sample_env_def)
  then have h:
    "\<not> no_text ?m \<and> filter_by_message_id (m_id ?m) (db fresh_bot) = [] \<and>
     analyze_text (sample_env good_reply) (ollama_posts fresh_bot) (m_text ?m) =
       (Some [(''title'', JStr ''X'')], [prompt_of ''hi'']) \<and>
     [(''title'', JStr ''X'')] \<noteq> [] \<and>
     page_title [(''title'', JStr ''X'')] (m_id ?m) = JStr ''X'' \<and>
     edit_page (sample_env good_reply) (wiki_client fresh_bot) ''X'' (page_content ''X'' ?m) True =
       (True, ?w)"
    by (simp add: no_text_def sample_message_def fresh_bot_def filter_by_message_id_def
          analyze_text_sample page_title_sample)
  note c = backfill_marks_before_adding
             [where m = ?m and b = fresh_bot and e = "sample_env good_reply"
                and an = "[(''title'', JStr ''X'')]" and posts = "[prompt_of ''hi'']"
                and title = "''X''" and w = ?w, THEN mp, OF h]
  from c have "mark_message_as_processed (db fresh_bot) 1 ''X'' = (False, db fresh_bot)"
    by (simp add: sample_message_def)
  moreover from c obtain b1 row where
    "backfill_message (sample_env good_reply) (get_processed_messages (db fresh_bot)) ?m fresh_bot
       = b1"
    "wiki_client b1 = ?w" "total_processed b1 = total_processed fresh_bot + 1"
    "db b1 = db fresh_bot @ [row]" "\<not> is_processed row" "wiki_page row = None" and
    again: "\<forall>an2 posts2 title2 w2.
       analyze_text (sample_env good_reply) (ollama_posts b1) (m_text ?m) = (Some an2, posts2) \<and>
       an2 \<noteq> [] \<and> page_title an2 (m_id ?m) = JStr title2 \<and>
       edit_page (sample_env good_reply) ?w title2 (page_content title2 ?m) True = (True, w2) \<longrightarrow>
         (\<exists>b2. backfill_message (sample_env good_reply) (get_processed_messages (db b1)) ?m b1
                 = b2 \<and>
               wiki_client b2 = w2 \<and>
               length (saved w2) = length (saved (wiki_client fresh_bot)) + 2)"
    by (elim conjE exE)
  moreover have
    "edit_page (sample_env good_reply) ?w ''X'' (page_content ''X'' ?m) True = (True, ?w2)"
    by (simp add: edit_page_existing sample_env_def)
  then have
    "analyze_text (sample_env good_reply) (ollama_posts b1) (m_text ?m) =
       (Some [(''title'', JStr ''X'')], ollama_posts b1 @ [prompt_of ''hi'']) \<and>
     [(''title'', JStr ''X'')] \<noteq> [] \<and>
     page_title [(''title'', JStr ''X'')] (m_id ?m) = JStr ''X'' \<and>
     edit_page (sample_env good_reply) ?w ''X'' (page_content ''X'' ?m) True = (True, ?w2)"
    by (simp add: sample_message_def analyze_text_sample page_title_sample)
  with again obtain b2 where
    "backfill_message (sample_env good_reply) (get_processed_messages (db b1)) ?m b1 = b2"
    "wiki_client b2 = ?w2"
    by blast
  ultimately show ?thesis
    by (intro conjI exI [of _ b1] exI [of _ row] exI [of _ b2]) (simp_all add: fresh_bot_def)
qed

section \<open>Properties of the history pass\<close>

text \<open>
  The body of the \<open>for\<close> loop leaves the request log alone and adds the id of its
  message to the visits, whatever the analysis holds and whatever the wiki and the table
  do: nothing that happens to one message ends the page or the pass.
\<close>

lemma backfill_message_logs:
  "requests (backfill_message e processed_messages m b) = requests b \<and>
   visits (backfill_message e processed_messages m b) = visits b @ [m_id m]"
proof (cases "no_text m \<or> m_id m \<in> set processed_messages")
  case True
  then show ?thesis
    by (cases "no_text m") (simp_all add: backfill_message_no_text backfill_message_processed)
next
  case False
  show ?thesis
  proof (cases "analyze_text e (ollama_posts b) (m_text m)")
    case (Pair r posts)
    show ?thesis
    proof (cases "r = None \<or> r = Some []")
      case True
      with False Pair show ?thesis
        by (simp add: backfill_message_not_analysed [where r = r and posts = posts])
    next
      case nonempty: False
      then obtain an where an: "r = Some an" "an \<noteq> []" by auto
      let ?c = "b\<lparr>visits := visits b @ [m_id m], ollama_posts := posts\<rparr>"
      obtain ok b' where o: "publish e m an ?c = (ok, b')" by (cases "publish e m an ?c")
      from publish_logs [OF o] have "requests b' = requests b" "visits b' = visits b @ [m_id m]"
        by simp_all
      with False Pair an o show ?thesis
        by (cases ok) (simp_all add: backfill_message_analysed [where an = an and posts = posts] Let_def)
    qed
  qed
qed

lemma backfill_page_logs:
  "requests (backfill_page e processed_messages ms b) = requests b \<and>
   visits (backfill_page e processed_messages ms b) = visits b @ map m_id ms"
proof (induction ms arbitrary: b)
  case Nil
  show ?case by simp
next
  case (Cons m ms)
  from Cons [of "backfill_message e processed_messages m b"]
       backfill_message_logs [of e processed_messages m b]
  show ?case by simp
qed

lemma backfill_loop_stop:
  "get_messages e limit offset_id = Some [] \<Longrightarrow>
   backfill_loop (Suc fuel) e offset_id b =
     Some (b\<lparr>requests := requests b @ [(offset_id, Some [])]\<rparr>)"
  by simp

lemma backfill_loop_raise:
  "get_messages e limit offset_id = None \<Longrightarrow>
   backfill_loop (Suc fuel) e offset_id b =
     Some (b\<lparr>requests := requests b @ [(offset_id, None)]\<rparr>)"
  by simp

lemma backfill_loop_next:
  "get_messages e limit offset_id = Some page \<Longrightarrow> page \<noteq> [] \<Longrightarrow>
   backfill_loop (Suc fuel) e offset_id b =
     backfill_loop fuel e (m_id (last page))
       (backfill_page e (get_processed_messages (db b)) page
          (b\<lparr>requests := requests b @ [(offset_id, Some page)]\<rparr>))"
  by (simp add: Let_def)

declare backfill_loop.simps [simp del]

lemma platform_first_page: "platform_get_messages history n 0 = Some (take n history)"
  by (simp add: platform_get_messages_def)

lemma conversation_nth_less:
  "conversation history \<Longrightarrow> i < j \<Longrightarrow> j < length history \<Longrightarrow>
   m_id (history ! j) < m_id (history ! i)"
  by (simp add: conversation_def sorted_wrt_iff_nth_less)

lemma conversation_positive:
  "conversation history \<Longrightarrow> i < length history \<Longrightarrow> 0 < m_id (history ! i)"
  by (simp add: conversation_def list_all_length)

lemma platform_next_page:
  assumes c: "conversation history" and k: "0 < k" "k \<le> length history"
  shows "platform_get_messages history n (m_id (history ! (k - 1))) = Some (take n (drop k history))"
proof -
  let ?o = "m_id (history ! (k - 1))"
  let ?P = "\<lambda>m. ?o = 0 \<or> m_id m < ?o"
  from c k have pos: "0 < ?o" by (intro conversation_positive) auto
  have "\<forall>x \<in> set (take k history). \<not> ?P x"
  proof
    fix x assume "x \<in> set (take k history)"
    then obtain i where i: "i < k" "x = history ! i"
      using k by (auto simp: in_set_conv_nth)
    show "\<not> ?P x"
    proof (cases "i = k - 1")
      case True
      with i pos show ?thesis by simp
    next
      case False
      with i have "i < k - 1" by simp
      with c k have "?o < m_id (history ! i)" by (intro conversation_nth_less) auto
      with i pos show ?thesis by simp
    qed
  qed
  then have a: "filter ?P (take k history) = []" by simp
  have "\<forall>x \<in> set (drop k history). ?P x"
  proof
    fix x assume "x \<in> set (drop k history)"
    then obtain j where "j < length (drop k history)" "x = drop k history ! j"
      by (auto simp: in_set_conv_nth)
    with k have j: "k + j < length history" "x = history ! (k + j)"
      by auto
    with c k have "m_id (history ! (k + j)) < ?o" by (intro conversation_nth_less) auto
    with j show "?P x" by simp
  qed
  then have b: "filter ?P (drop k history) = drop k history" by simp
  have "filter ?P history = filter ?P (take k history @ drop k history)" by simp
  also have "\<dots> = drop k history" unfolding filter_append a b by simp
  finally show ?thesis by (simp add: platform_get_messages_def)
qed

lemma last_page_nth:
  assumes "k < length history" and "0 < n"
  shows "last (take n (drop k history)) = history ! (min (k + n) (length history) - 1)"
proof -
  let ?m = "min (length history - k) n"
  from assms have m: "0 < ?m" by simp
  have "last (take n (drop k history)) = take n (drop k history) ! (?m - 1)"
    using assms by (simp add: last_conv_nth)
  also have "\<dots> = drop k history ! (?m - 1)"
    using m by (intro nth_take) (simp add: min_def split: if_splits)
  also have "\<dots> = history ! (k + (?m - 1))"
    using assms by simp
  also have "k + (?m - 1) = min (k + n) (length history) - 1"
    using assms by (auto simp: min_def)
  finally show ?thesis .
qed

lemma platform_page:
  assumes "conversation history" and "k \<le> length history"
    and "k = 0 \<and> offset_id = 0 \<or> 0 < k \<and> offset_id = m_id (history ! (k - 1))"
  shows "platform_get_messages history n offset_id = Some (take n (drop k history))"
proof (cases "k = 0")
  case True
  with assms show ?thesis by (simp add: platform_first_page)
next
  case False
  with assms platform_next_page [of history k n] show ?thesis by simp
qed

lemma limit_positive: "0 < limit"
  by (simp add: limit_def)

text \<open>
  The pass over a conversation, from the message at position \<open>k\<close>: with more
  iterations allowed than messages are left it ends; its last request is the one that
  came back empty, every request before it came back with messages, the pages together
  are the rest of the conversation, and the \<open>for\<close> loop took each of those messages
  once, in that order.
\<close>

lemma backfill_loop_visits:
  assumes c: "conversation history" and g: "get_messages e = platform_get_messages history"
  shows "k \<le> length history \<Longrightarrow>
         k = 0 \<and> offset_id = 0 \<or> 0 < k \<and> offset_id = m_id (history ! (k - 1)) \<Longrightarrow>
         length history - k < fuel \<Longrightarrow>
         \<exists>b' new last_offset.
           backfill_loop fuel e offset_id b = Some b' \<and>
           requests b' = requests b @ new @ [(last_offset, Some [])] \<and>
           fetched new = drop k history \<and>
           visits b' = visits b @ map m_id (drop k history) \<and>
           list_all (\<lambda>r. \<exists>page. snd r = Some page \<and> page \<noteq> [] \<and> length page \<le> limit) new"
proof (induction fuel arbitrary: k offset_id b)
  case 0
  then show ?case by simp
next
  case (Suc fuel)
  let ?page = "take limit (drop k history)"
  have page: "get_messages e limit offset_id = Some ?page"
    unfolding g using c Suc.prems(1,2) by (rule platform_page)
  show ?case
  proof (cases "k = length history")
    case True
    then have "get_messages e limit offset_id = Some []" using page by simp
    from backfill_loop_stop [OF this, of fuel b] True show ?thesis
      by (intro exI [of _ "b\<lparr>requests := requests b @ [(offset_id, Some [])]\<rparr>"]
                exI [of _ "[]"] exI [of _ offset_id])
         (simp add: fetched_def)
  next
    case False
    with Suc.prems have k: "k < length history" by simp
    then have ne: "?page \<noteq> []" using limit_positive by simp
    let ?b2 = "backfill_page e (get_processed_messages (db b)) ?page
                 (b\<lparr>requests := requests b @ [(offset_id, Some ?page)]\<rparr>)"
    have step: "backfill_loop (Suc fuel) e offset_id b = backfill_loop fuel e (m_id (last ?page)) ?b2"
      using page ne by (rule backfill_loop_next)
    have r2: "requests ?b2 = requests b @ [(offset_id, Some ?page)]"
      and v2: "visits ?b2 = visits b @ map m_id ?page"
      by (simp_all add: backfill_page_logs)
    let ?k = "min (k + limit) (length history)"
    have l: "last ?page = history ! (?k - 1)"
      using k limit_positive by (rule last_page_nth)
    have k': "?k \<le> length history" "0 < ?k" "length history - ?k < fuel"
      using k limit_positive Suc.prems(3) by (auto simp: min_def)
    from Suc.IH [of ?k "m_id (last ?page)" ?b2] k' l
    obtain b' new last_offset where
      ih: "backfill_loop fuel e (m_id (last ?page)) ?b2 = Some b'"
          "requests b' = requests ?b2 @ new @ [(last_offset, Some [])]"
          "fetched new = drop ?k history"
          "visits b' = visits ?b2 @ map m_id (drop ?k history)"
          "list_all (\<lambda>r. \<exists>page. snd r = Some page \<and> page \<noteq> [] \<and> length page \<le> limit) new"
      by auto
    have rest: "?page @ drop ?k history = drop k history"
    proof (cases "k + limit \<le> length history")
      case True
      have "take limit (drop k history) @ drop limit (drop k history) = drop k history"
        by (rule append_take_drop_id)
      moreover from True have "drop ?k history = drop limit (drop k history)"
        by (simp add: min_def add.commute)
      ultimately show ?thesis by (simp only:)
    next
      case False
      then show ?thesis by (simp add: min_def)
    qed
    then have "map m_id ?page @ map m_id (drop ?k history) = map m_id (drop k history)"
      by (simp only: map_append [symmetric])
    with ih r2 v2 step ne rest show ?thesis
      by (intro exI [of _ b'] exI [of _ "(offset_id, Some ?page) # new"] exI [of _ last_offset])
         (simp add: fetched_def)
  qed
qed

lemma conversation_distinct:
  assumes "conversation history"
  shows "distinct (map m_id history)"
proof -
  have "m_id (history ! i) \<noteq> m_id (history ! j)"
    if "i < length history" "j < length history" "i \<noteq> j" for i j
  proof (cases "i < j")
    case True
    with that conversation_nth_less [OF assms, of i j] show ?thesis by simp
  next
    case False
    with that have "j < i" by simp
    with that conversation_nth_less [OF assms, of j i] show ?thesis by simp
  qed
  then show ?thesis by (simp add: distinct_conv_nth)
qed

lemma backfill_loop_250:
  assumes c: "conversation history" and g: "get_messages e = platform_get_messages history"
    and n: "length history = 250"
  shows "\<exists>b'. backfill_loop (Suc (Suc (Suc (Suc fuel)))) e 0 b = Some b' \<and>
           requests b' = requests b @
             [(0, Some (take 100 history)),
              (m_id (history ! 99), Some (take 100 (drop 100 history))),
              (m_id (history ! 199), Some (drop 200 history)),
              (m_id (history ! 249), Some [])] \<and>
           visits b' = visits b @ map m_id history"
proof -
  have p1: "get_messages e limit 0 = Some (take 100 history)"
    unfolding g by (simp add: platform_first_page limit_def)
  have p2: "get_messages e limit (m_id (history ! 99)) = Some (take 100 (drop 100 history))"
    unfolding g using platform_next_page [OF c, of 100 limit] n by (simp add: limit_def)
  have p3: "get_messages e limit (m_id (history ! 199)) = Some (drop 200 history)"
    unfolding g using platform_next_page [OF c, of 200 limit] n by (simp add: limit_def)
  have p4: "get_messages e limit (m_id (history ! 249)) = Some []"
    unfolding g using platform_next_page [OF c, of 250 limit] n by (simp add: limit_def)
  have l1: "last (take 100 history) = history ! 99"
    using last_page_nth [of 0 history 100] n by simp
  have l2: "last (take 100 (drop 100 history)) = history ! 199"
    using last_page_nth [of 100 history 100] n by simp
  have l3: "last (drop 200 history) = history ! 249"
    using n by (simp add: last_conv_nth)
  have ne: "take 100 history \<noteq> []" "take 100 (drop 100 history) \<noteq> []" "drop 200 history \<noteq> []"
    using n by auto
  let ?b1 = "backfill_page e (get_processed_messages (db b)) (take 100 history)
               (b\<lparr>requests := requests b @ [(0, Some (take 100 history))]\<rparr>)"
  let ?b2 = "backfill_page e (get_processed_messages (db ?b1)) (take 100 (drop 100 history))
               (?b1\<lparr>requests := requests ?b1 @
                  [(m_id (history ! 99), Some (take 100 (drop 100 history)))]\<rparr>)"
  let ?b3 = "backfill_page e (get_processed_messages (db ?b2)) (drop 200 history)
               (?b2\<lparr>requests := requests ?b2 @ [(m_id (history ! 199), Some (drop 200 history))]\<rparr>)"
  have s1: "backfill_loop (Suc (Suc (Suc (Suc fuel)))) e 0 b =
            backfill_loop (Suc (Suc (Suc fuel))) e (m_id (history ! 99)) ?b1"
    using backfill_loop_next [OF p1 ne(1), of "Suc (Suc (Suc fuel))" b] by (simp only: l1)
  have s2: "backfill_loop (Suc (Suc (Suc fuel))) e (m_id (history ! 99)) ?b1 =
            backfill_loop (Suc (Suc fuel)) e (m_id (history ! 199)) ?b2"
    using backfill_loop_next [OF p2 ne(2), of "Suc (Suc fuel)" ?b1] by (simp only: l2)
  have s3: "backfill_loop (Suc (Suc fuel)) e (m_id (history ! 199)) ?b2 =
            backfill_loop (Suc fuel) e (m_id (history ! 249)) ?b3"
    using backfill_loop_next [OF p3 ne(3), of "Suc fuel" ?b2] by (simp only: l3)
  have s4: "backfill_loop (Suc fuel) e (m_id (history ! 249)) ?b3 =
            Some (?b3\<lparr>requests := requests ?b3 @ [(m_id (history ! 249), Some [])]\<rparr>)"
    using p4 by (rule backfill_loop_stop)
  have "take 100 (drop 100 history) @ drop 200 history = drop 100 history"
    using append_take_drop_id [of 100 "drop 100 history"] by simp
  then have "take 100 history @ take 100 (drop 100 history) @ drop 200 history = history"
    by simp
  then have v: "map m_id (take 100 history) @ map m_id (take 100 (drop 100 history)) @
                map m_id (drop 200 history) = map m_id history"
    by (simp only: map_append [symmetric])
  show ?thesis
    unfolding s1 s2 s3 s4 using v by (simp add: backfill_page_logs)
qed

lemma conversation_sample_history: "conversation (sample_history n)"
proof -
  have "sorted_wrt (\<lambda>x y. int x < int y) [1..<Suc n]"
    using sorted_wrt_upt [of 1 "Suc n"] by simp
  then have "sorted_wrt (\<lambda>a b. m_id b < m_id a) (sample_history n)"
    by (simp add: sample_history_def sorted_wrt_map sorted_wrt_rev sample_message_def)
  moreover have "list_all (\<lambda>m. 0 < m_id m) (sample_history n)"
    by (auto simp: sample_history_def list_all_iff sample_message_def)
  ultimately show ?thesis by (simp add: conversation_def)
qed

lemma history_env_get_messages: "get_messages (history_env history) = platform_get_messages history"
  by (simp add: history_env_def)

lemma length_sample_history: "length (sample_history n) = n"
  by (simp add: sample_history_def)

lemma map_m_id_sample_history: "map m_id (sample_history n) = map int (rev [1..<Suc n])"
  by (simp add: sample_history_def sample_message_def comp_def)

text \<open>
  C8, as the code has it. One iteration of the loop: when the page comes back empty,
  or the request raises, the loop ends; when it comes back with messages, however few,
  the \<open>for\<close> loop runs over the page and the loop goes on from the id of the last
  message of the page. On a conversation, with one iteration more than it has messages,
  the pass ends, its last request comes back empty, the requests before it come back
  with at most \<open>limit\<close> messages each and none empty, together they hold every message
  of the conversation once, and the \<open>for\<close> loop takes every message once, in that
  order, whatever the analysis of a message holds. On a conversation of 250 messages
  the pass makes four requests, which come back with 100, 100, 50 and 0 messages.
\<close>

theorem backfill_loop_pagination:
  "(get_messages e limit offset_id = Some [] \<longrightarrow>
      backfill_loop (Suc fuel) e offset_id b =
        Some (b\<lparr>requests := requests b @ [(offset_id, Some [])]\<rparr>)) \<and>
   (get_messages e limit offset_id = None \<longrightarrow>
      backfill_loop (Suc fuel) e offset_id b =
        Some (b\<lparr>requests := requests b @ [(offset_id, None)]\<rparr>)) \<and>
   (\<forall>page.
      get_messages e limit offset_id = Some page \<and> page \<noteq> [] \<longrightarrow>
        backfill_loop (Suc fuel) e offset_id b =
          backfill_loop fuel e (m_id (last page))
            (backfill_page e (get_processed_messages (db b)) page
               (b\<lparr>requests := requests b @ [(offset_id, Some page)]\<rparr>)) \<and>
        visits (backfill_page e (get_processed_messages (db b)) page
                  (b\<lparr>requests := requests b @ [(offset_id, Some page)]\<rparr>)) =
          visits b @ map m_id page) \<and>
   (conversation history \<and> get_messages e = platform_get_messages history \<longrightarrow>
      (\<exists>b' new last_offset.
         backfill_loop (Suc (length history)) e 0 b = Some b' \<and>
         requests b' = requests b @ new @ [(last_offset, Some [])] \<and>
         fetched new = history \<and>
         visits b' = visits b @ map m_id history \<and> distinct (map m_id history) \<and>
         list_all (\<lambda>r. \<exists>page. snd r = Some page \<and> page \<noteq> [] \<and> length page \<le> limit) new) \<and>
      (length history = 250 \<longrightarrow>
         (\<exists>b'. backfill_loop (4 + fuel) e 0 b = Some b' \<and>
            requests b' = requests b @
              [(0, Some (take 100 history)),
               (m_id (history ! 99), Some (take 100 (drop 100 history))),
               (m_id (history ! 199), Some (drop 200 history)),
               (m_id (history ! 249), Some [])] \<and>
            map (\<lambda>r. map_option length (snd r)) (drop (length (requests b)) (requests b')) =
              [Some 100, Some 100, Some 50, Some 0] \<and>
            take 100 history @ take 100 (drop 100 history) @ drop 200 history = history \<and>
            visits b' = visits b @ map m_id history)))"
proof (intro conjI allI impI)
  assume "get_messages e limit offset_id = Some []"
  then show "backfill_loop (Suc fuel) e offset_id b =
             Some (b\<lparr>requests := requests b @ [(offset_id, Some [])]\<rparr>)"
    by (rule backfill_loop_stop)
next
  assume "get_messages e limit offset_id = None"
  then show "backfill_loop (Suc fuel) e offset_id b =
             Some (b\<lparr>requests := requests b @ [(offset_id, None)]\<rparr>)"
    by (rule backfill_loop_raise)
next
  fix page
  assume "get_messages e limit offset_id = Some page \<and> page \<noteq> []"
  then show "backfill_loop (Suc fuel) e offset_id b =
          backfill_loop fuel e (m_id (last page))
            (backfill_page e (get_processed_messages (db b)) page
               (b\<lparr>requests := requests b @ [(offset_id, Some page)]\<rparr>))"
    by (intro backfill_loop_next) simp_all
  show "visits (backfill_page e (get_processed_messages (db b)) page
                  (b\<lparr>requests := requests b @ [(offset_id, Some page)]\<rparr>)) =
          visits b @ map m_id page"
    by (simp add: backfill_page_logs)
next
  assume h: "conversation history \<and> get_messages e = platform_get_messages history"
  then have c: "conversation history" and g: "get_messages e = platform_get_messages history"
    by simp_all
  from backfill_loop_visits [OF c g, of 0 0 "Suc (length history)" b] conversation_distinct [OF c]
  show "\<exists>b' new last_offset.
         backfill_loop (Suc (length history)) e 0 b = Some b' \<and>
         requests b' = requests b @ new @ [(last_offset, Some [])] \<and>
         fetched new = history \<and>
         visits b' = visits b @ map m_id history \<and> distinct (map m_id history) \<and>
         list_all (\<lambda>r. \<exists>page. snd r = Some page \<and> page \<noteq> [] \<and> length page \<le> limit) new"
    by simp
  assume n: "length history = 250"
  from backfill_loop_250 [OF c g n, of fuel b] obtain b' where
    b': "backfill_loop (Suc (Suc (Suc (Suc fuel)))) e 0 b = Some b'"
        "requests b' = requests b @
           [(0, Some (take 100 history)),
            (m_id (history ! 99), Some (take 100 (drop 100 history))),
            (m_id (history ! 199), Some (drop 200 history)),
            (m_id (history ! 249), Some [])]"
        "visits b' = visits b @ map m_id history"
    by blast
  have "take 100 (drop 100 history) @ drop 200 history = drop 100 history"
    using append_take_drop_id [of 100 "drop 100 history"] by simp
  then have "take 100 history @ take 100 (drop 100 history) @ drop 200 history = history"
    by simp
  with b' n show "\<exists>b'. backfill_loop (4 + fuel) e 0 b = Some b' \<and>
            requests b' = requests b @
              [(0, Some (take 100 history)),
               (m_id (history ! 99), Some (take 100 (drop 100 history))),
               (m_id (history ! 199), Some (drop 200 history)),
               (m_id (history ! 249), Some [])] \<and>
            map (\<lambda>r. map_option length (snd r)) (drop (length (requests b)) (requests b')) =
              [Some 100, Some 100, Some 50, Some 0] \<and>
            take 100 history @ take 100 (drop 100 history) @ drop 200 history = history \<and>
            visits b' = visits b @ map m_id history"
    by (intro exI [of _ b']) (simp add: numeral_eq_Suc)
qed

text \<open>
  The empty conversation: the first request comes back empty and ends the pass. The
  conversation with the ids 250 down to 1, on a fresh run: the pass ends within four
  iterations, its requests come back with 100, 100, 50 and 0 messages, and the
  \<open>for\<close> loop takes the 250 messages, each once.
\<close>

theorem backfill_loop_pagination_witness:
  "backfill_loop (Suc 0) (history_env []) 0 fresh_bot =
     Some (fresh_bot\<lparr>requests := requests fresh_bot @ [(0, Some [])]\<rparr>) \<and>
   conversation (sample_history 250) \<and> length (sample_history 250) = 250 \<and>
   (\<exists>b'. backfill_loop 4 (history_env (sample_history 250)) 0 fresh_bot = Some b' \<and>
      map (\<lambda>r. map_option length (snd r)) (requests b') = [Some 100, Some 100, Some 50, Some 0] \<and>
      visits b' = map m_id (sample_history 250))"
proof -
  have g0: "get_messages (history_env []) limit 0 = Some []"
    by (simp add: history_env_def platform_get_messages_def)
  note s = backfill_loop_pagination
             [where e = "history_env []" and offset_id = 0 and b = fresh_bot and fuel = 0,
              THEN conjunct1, THEN mp, OF g0]
  have h: "conversation (sample_history 250) \<and>
           get_messages (history_env (sample_history 250)) = platform_get_messages (sample_history 250)"
    using conversation_sample_history history_env_get_messages by blast
  have n: "length (sample_history 250) = 250" by (rule length_sample_history)
  note d = backfill_loop_pagination
             [where e = "history_env (sample_history 250)" and history = "sample_history 250"
                and b = fresh_bot and fuel = 0 and offset_id = 0,
              THEN conjunct2, THEN conjunct2, THEN conjunct2, THEN mp, OF h,
              THEN conjunct2, THEN mp, OF n]
  from d obtain b' where
    "backfill_loop (4 + 0) (history_env (sample_history 250)) 0 fresh_bot = Some b'"
    "map (\<lambda>r. map_option length (snd r)) (drop (length (requests fresh_bot)) (requests b')) =
       [Some 100, Some 100, Some 50, Some 0]"
    "visits b' = visits fresh_bot @ map m_id (sample_history 250)"
    by (elim exE conjE)
  then have "backfill_loop 4 (history_env (sample_history 250)) 0 fresh_bot = Some b' \<and>
             map (\<lambda>r. map_option length (snd r)) (requests b') = [Some 100, Some 100, Some 50, Some 0] \<and>
             visits b' = map m_id (sample_history 250)"
    by (simp add: fresh_bot_def)
  then have r: "\<exists>b'. backfill_loop 4 (history_env (sample_history 250)) 0 fresh_bot = Some b' \<and>
             map (\<lambda>r. map_option length (snd r)) (requests b') = [Some 100, Some 100, Some 50, Some 0] \<and>
             visits b' = map m_id (sample_history 250)"
    by (rule exI)
  from h have c: "conversation (sample_history 250)" by (rule conjunct1)
  show ?thesis by (rule conjI [OF s conjI [OF c conjI [OF n r]]])
qed

text \<open>
  C8 as the spec words it fails twice. On the conversation with the ids 250 down to 1
  the pass does not make three requests: it makes four, and the fourth is the one that
  comes back empty. And an empty page is not the only end of the pass: when the first
  request raises, the pass ends there, and no page has come back at all.
\<close>

theorem backfill_loop_requests_counterexample:
  "(case backfill_loop 4 (history_env (sample_history 250)) 0 fresh_bot of
      Some b' \<Rightarrow>
        length (requests b') \<noteq> 3 \<and>
        map (\<lambda>r. map_option length (snd r)) (requests b') = [Some 100, Some 100, Some 50, Some 0]
    | None \<Rightarrow> False) \<and>
   backfill_loop 1 unreachable_env 0 fresh_bot = Some (fresh_bot\<lparr>requests := [(0, None)]\<rparr>)"
proof -
  from backfill_loop_250
         [OF conversation_sample_history history_env_get_messages length_sample_history,
          of 0 fresh_bot]
  obtain b' where
    "backfill_loop (Suc (Suc (Suc (Suc 0)))) (history_env (sample_history 250)) 0 fresh_bot =
       Some b'"
    "requests b' = requests fresh_bot @
       [(0, Some (take 100 (sample_history 250))),
        (m_id (sample_history 250 ! 99), Some (take 100 (drop 100 (sample_history 250)))),
        (m_id (sample_history 250 ! 199), Some (drop 200 (sample_history 250))),
        (m_id (sample_history 250 ! 249), Some [])]"
    by blast
  then have a: "case backfill_loop 4 (history_env (sample_history 250)) 0 fresh_bot of
      Some b' \<Rightarrow>
        length (requests b') \<noteq> 3 \<and>
        map (\<lambda>r. map_option length (snd r)) (requests b') = [Some 100, Some 100, Some 50, Some 0]
    | None \<Rightarrow> False"
    by (simp add: numeral_eq_Suc fresh_bot_def length_sample_history)
  have "get_messages unreachable_env limit 0 = None"
    by (simp add: unreachable_env_def)
  from backfill_loop_raise [OF this, of 0 fresh_bot]
  have b: "backfill_loop 1 unreachable_env 0 fresh_bot = Some (fresh_bot\<lparr>requests := [(0, None)]\<rparr>)"
    by (simp add: fresh_bot_def)
  from a b show ?thesis by (rule conjI)
qed

end
